theory Spec2Isabelle
  imports Complex_Main
begin

section \<open>The deployment simulation of simulation.py\<close>

text \<open>
  A shallow embedding of the class \<open>DeploymentSimulation\<close>. Conventions:
  \<^item> Python numbers that enter cost formulas are exact reals here; IEEE rounding of the
    source's floats is outside the model.
  \<^item> A date is the proleptic Gregorian ordinal of the midnight \<open>datetime\<close> the source
    holds (\<open>date.toordinal()\<close>), so that \<open>weekday\<close> is \<open>(ordinal + 6) mod 7\<close> with
    Monday \<open>0\<close> and adding \<open>timedelta(days=1)\<close> is \<open>+ 1\<close>. The year-9999 bound of
    \<open>datetime\<close> is not modelled.
  \<^item> The module-level generator \<open>random\<close> is a fixed sequence of draws together
    with a cursor \<open>rng_pos\<close> that every call advances by one.
  \<^item> An exception is the value \<open>Raised err s\<close>, where \<open>s\<close> is the object's state at the
    raise (the mutations made before it stay visible to a caller that catches it).
\<close>

subsection \<open>Data\<close>

datatype TaskStatus = IN_PROGRESS | READY_TO_DEPLOY | DEPLOYED | FAILED

type_synonym date = int

record Task =
  task_id :: int
  created_date :: date
  complexity :: int
  status :: TaskStatus
  deploy_date :: "date option"
  recovery_hours :: real
  dependencies :: "string list"

record Team =
  name :: string
  task_completion_rate :: real
  allows_friday_deploys :: bool

record SimulationParameters =
  team_size :: real
  avg_hourly_rate :: real
  new_tasks_per_day :: int
  task_complexity_range :: "int \<times> int"
  hourly_revenue :: real
  hourly_downtime_cost :: real
  base_deploy_failure_rate :: real
  weekend_recovery_multiplier :: real
  normal_recovery_hours :: real
  context_switch_cost_hours :: real
  dependency_probability :: real
  other_teams :: "Team list"

definition SIMULATION_DEFAULTS :: SimulationParameters where
  "SIMULATION_DEFAULTS =
     \<lparr> team_size = 5, avg_hourly_rate = 75, new_tasks_per_day = 3,
       task_complexity_range = (1, 5), hourly_revenue = 1000,
       hourly_downtime_cost = 2000, base_deploy_failure_rate = 5 / 100,
       weekend_recovery_multiplier = 3, normal_recovery_hours = 2,
       context_switch_cost_hours = 1, dependency_probability = 3 / 10,
       other_teams =
         [\<lparr> name = ''Backend Team'', task_completion_rate = 2 / 10,
             allows_friday_deploys = False \<rparr>,
          \<lparr> name = ''Security Team'', task_completion_rate = 1 / 10,
             allows_friday_deploys = False \<rparr>] \<rparr>"

record Metrics =
  failed_deploys :: int
  successful_deploys :: int
  delayed_tasks :: int
  total_recovery_hours :: real

record DeploymentSimulation =
  params :: SimulationParameters
  failure_cost_multiplier :: real
  allow_friday_deploys :: bool
  current_date :: date
  tasks :: "Task list"
  task_counter :: int
  total_cost :: real
  daily_costs :: "real list"
  metrics :: Metrics
  rng_pos :: nat

record SimulationResult =
  res_total_cost :: real
  res_daily_costs :: "real list"
  res_metrics :: Metrics
  res_allow_friday_deploys :: bool

datatype error = ValueError | IndexError | StopIteration

datatype 'a outcome =
    Raised error DeploymentSimulation
  | Returned 'a DeploymentSimulation

fun state_of :: "'a outcome \<Rightarrow> DeploymentSimulation" where
  "state_of (Raised err s) = s"
| "state_of (Returned v s) = s"

subsection \<open>The random source\<close>

text \<open>
  The \<open>k\<close>-th call to the generator reads position \<open>k\<close>: \<open>draw_float\<close> is what
  \<open>random.random()\<close> returns there, \<open>draw_nat\<close> the raw integer from which
  \<open>randint\<close> and \<open>choice\<close> pick. \<open>randint a b\<close> raises \<open>ValueError\<close> on an empty
  range and \<open>choice\<close> raises \<open>IndexError\<close> on an empty sequence; both are \<open>None\<close>
  here and turned into the exception by the caller.
\<close>

record random_source =
  draw_float :: "nat \<Rightarrow> real"
  draw_nat :: "nat \<Rightarrow> nat"

definition randint :: "random_source \<Rightarrow> nat \<Rightarrow> int \<Rightarrow> int \<Rightarrow> int option" where
  "randint g k a b =
     (if b < a then None else Some (a + int (draw_nat g k mod nat (b - a + 1))))"

definition choice :: "random_source \<Rightarrow> nat \<Rightarrow> 'a list \<Rightarrow> 'a option" where
  "choice g k xs = (if xs = [] then None else Some (xs ! (draw_nat g k mod length xs)))"

subsection \<open>Construction\<close>

text \<open>
  \<open>today\<close> is the date that \<open>datetime.now()\<close> yields when the constructor runs and
  \<open>pos\<close> the position of the generator at that moment. \<open>params or DEFAULTS\<close>:
  an absent parameter dictionary selects the defaults.
\<close>

definition init :: "date \<Rightarrow> nat \<Rightarrow> bool \<Rightarrow> SimulationParameters option \<Rightarrow> real
    \<Rightarrow> DeploymentSimulation" where
  "init today pos allow_friday ps multiplier =
     \<lparr> params = (case ps of None \<Rightarrow> SIMULATION_DEFAULTS | Some p \<Rightarrow> p),
       failure_cost_multiplier = multiplier,
       allow_friday_deploys = allow_friday,
       current_date = today,
       tasks = [],
       task_counter = 0,
       total_cost = 0,
       daily_costs = [],
       metrics = \<lparr> failed_deploys = 0, successful_deploys = 0, delayed_tasks = 0,
                   total_recovery_hours = 0 \<rparr>,
       rng_pos = pos \<rparr>"

subsection \<open>Task generation\<close>

definition generate_task :: "random_source \<Rightarrow> DeploymentSimulation \<Rightarrow> unit outcome" where
  "generate_task g s =
     (let s1 = s\<lparr>task_counter := task_counter s + 1\<rparr>;
          p = params s1
      in case randint g (rng_pos s1) (fst (task_complexity_range p))
                (snd (task_complexity_range p)) of
           None \<Rightarrow> Raised ValueError s1
         | Some c \<Rightarrow>
            (let s2 = s1\<lparr>rng_pos := rng_pos s1 + 1\<rparr>;
                 r = draw_float g (rng_pos s2);
                 s3 = s2\<lparr>rng_pos := rng_pos s2 + 1\<rparr>
             in if r < dependency_probability p then
                  (case choice g (rng_pos s3) (other_teams p) of
                     None \<Rightarrow> Raised IndexError s3
                   | Some team \<Rightarrow>
                       Returned ()
                         (s3\<lparr>rng_pos := rng_pos s3 + 1,
                             tasks := tasks s3 @
                               [\<lparr> task_id = task_counter s3, created_date = current_date s3,
                                   complexity = c, status = IN_PROGRESS, deploy_date = None,
                                   recovery_hours = 0, dependencies = [name team] \<rparr>]\<rparr>))
                else
                  Returned ()
                    (s3\<lparr>tasks := tasks s3 @
                          [\<lparr> task_id = task_counter s3, created_date = current_date s3,
                              complexity = c, status = IN_PROGRESS, deploy_date = None,
                              recovery_hours = 0, dependencies = [] \<rparr>]\<rparr>)))"

fun generate_loop :: "random_source \<Rightarrow> nat \<Rightarrow> DeploymentSimulation \<Rightarrow> unit outcome" where
  "generate_loop g 0 s = Returned () s"
| "generate_loop g (Suc n) s =
     (case generate_task g s of
        Raised err s' \<Rightarrow> Raised err s'
      | Returned u s' \<Rightarrow> generate_loop g n s')"

definition generate_daily_tasks :: "random_source \<Rightarrow> DeploymentSimulation \<Rightarrow> unit outcome" where
  "generate_daily_tasks g s = generate_loop g (nat (new_tasks_per_day (params s))) s"

subsection \<open>The deploy policy and the recovery time\<close>

definition weekday :: "date \<Rightarrow> int" where
  "weekday d = (d + 6) mod 7"

definition should_deploy_today :: "DeploymentSimulation \<Rightarrow> bool" where
  "should_deploy_today s =
     (if weekday (current_date s) = 4 then allow_friday_deploys s else True)"

definition calculate_deploy_risk :: "DeploymentSimulation \<Rightarrow> real" where
  "calculate_deploy_risk s = base_deploy_failure_rate (params s)"

definition calculate_recovery_time :: "DeploymentSimulation \<Rightarrow> real" where
  "calculate_recovery_time s =
     (let base_time = normal_recovery_hours (params s)
      in if weekday (current_date s) \<in> {4, 5, 6}
         then base_time * weekend_recovery_multiplier (params s)
         else base_time)"

subsection \<open>Deployment attempts\<close>

text \<open>
  \<open>ready_tasks\<close> holds references into \<open>self.tasks\<close>; the model keeps the positions
  of the ready tasks and updates the registry at each position. \<open>deploy_task\<close> is the
  body of the loop, on the pair of the local \<open>daily_cost\<close> and the object.
\<close>

definition deploy_task :: "random_source \<Rightarrow> nat \<Rightarrow> real \<times> DeploymentSimulation
    \<Rightarrow> real \<times> DeploymentSimulation" where
  "deploy_task g i acc =
     (let daily_cost = fst acc; s = snd acc;
          task = tasks s ! i;
          failure_chance = calculate_deploy_risk s;
          r = draw_float g (rng_pos s);
          s0 = s\<lparr>rng_pos := rng_pos s + 1\<rparr>
      in if r < failure_chance then
           (let rh = calculate_recovery_time s0;
                task1 = task\<lparr>status := FAILED, recovery_hours := rh\<rparr>;
                recovery_cost = rh * team_size (params s0) * avg_hourly_rate (params s0)
                                  * failure_cost_multiplier s0;
                downtime_cost = rh * hourly_downtime_cost (params s0)
                                  * failure_cost_multiplier s0
            in (daily_cost + (recovery_cost + downtime_cost),
                s0\<lparr>tasks := (tasks s0)[i := task1],
                    total_cost := total_cost s0 + (recovery_cost + downtime_cost),
                    metrics := (metrics s0)
                      \<lparr>failed_deploys := failed_deploys (metrics s0) + 1,
                       total_recovery_hours := total_recovery_hours (metrics s0) + rh\<rparr>\<rparr>))
         else
           (daily_cost,
            s0\<lparr>tasks := (tasks s0)[i := task\<lparr>status := DEPLOYED,
                                               deploy_date := Some (current_date s0)\<rparr>],
                metrics := (metrics s0)
                  \<lparr>successful_deploys := successful_deploys (metrics s0) + 1\<rparr>\<rparr>))"

definition ready_positions :: "DeploymentSimulation \<Rightarrow> nat list" where
  "ready_positions s =
     filter (\<lambda>i. status (tasks s ! i) = READY_TO_DEPLOY) [0 ..< length (tasks s)]"

definition attempt_deployments :: "random_source \<Rightarrow> DeploymentSimulation
    \<Rightarrow> real \<times> DeploymentSimulation" where
  "attempt_deployments g s =
     (if \<not> should_deploy_today s then (0, s)
      else fold (deploy_task g) (ready_positions s) (0, s))"

subsection \<open>Task progression\<close>

text \<open>
  The inner loop iterates over \<open>task.dependencies\<close> while removing from it. A Python
  list iterator keeps an index: it reads position \<open>i\<close> of the list as it is now and
  stops when \<open>i\<close> reaches the current length; \<open>remove\<close> deletes the first equal
  element. \<open>next(...)\<close> on a team name that no team carries raises \<open>StopIteration\<close>.
  The result is the exception (if any), the list and the generator position.
\<close>

function resolve_dependencies :: "random_source \<Rightarrow> Team list \<Rightarrow> nat \<Rightarrow> string list \<Rightarrow> nat
    \<Rightarrow> error option \<times> string list \<times> nat" where
  "resolve_dependencies g teams i deps pos =
     (if i < length deps then
        (let dep = deps ! i
         in case find (\<lambda>t. name t = dep) teams of
              None \<Rightarrow> (Some StopIteration, deps, pos)
            | Some team \<Rightarrow>
                if draw_float g pos < task_completion_rate team
                then resolve_dependencies g teams (Suc i) (remove1 dep deps) (pos + 1)
                else resolve_dependencies g teams (Suc i) deps (pos + 1))
      else (None, deps, pos))"
  by pat_completeness auto
termination
  by (relation "measure (\<lambda>(g, teams, i, deps, pos). length deps - i)")
     (auto simp: length_remove1)

definition progress_task :: "random_source \<Rightarrow> nat \<Rightarrow> DeploymentSimulation \<Rightarrow> unit outcome" where
  "progress_task g i s =
     (let task = tasks s ! i
      in if status task = IN_PROGRESS then
           (let res = (if dependencies task \<noteq> []
                       then resolve_dependencies g (other_teams (params s)) 0
                              (dependencies task) (rng_pos s)
                       else (None, dependencies task, rng_pos s));
                deps = fst (snd res);
                task1 = task\<lparr>dependencies := deps\<rparr>;
                s1 = s\<lparr>tasks := (tasks s)[i := task1], rng_pos := snd (snd res)\<rparr>
            in case fst res of
                 Some err \<Rightarrow> Raised err s1
               | None \<Rightarrow>
                   if deps = [] then
                     (let r = draw_float g (rng_pos s1);
                          s2 = s1\<lparr>rng_pos := rng_pos s1 + 1\<rparr>
                      in if r < 3 / 10
                         then Returned ()
                                (s2\<lparr>tasks := (tasks s2)[i := task1\<lparr>status := READY_TO_DEPLOY\<rparr>]\<rparr>)
                         else Returned () s2)
                   else Returned () s1)
         else Returned () s)"

fun progress_loop :: "random_source \<Rightarrow> nat list \<Rightarrow> DeploymentSimulation \<Rightarrow> unit outcome" where
  "progress_loop g [] s = Returned () s"
| "progress_loop g (i # is) s =
     (case progress_task g i s of
        Raised err s' \<Rightarrow> Raised err s'
      | Returned u s' \<Rightarrow> progress_loop g is s')"

definition progress_tasks :: "random_source \<Rightarrow> DeploymentSimulation \<Rightarrow> unit outcome" where
  "progress_tasks g s = progress_loop g [0 ..< length (tasks s)] s"

subsection \<open>Delay cost\<close>

definition ready_tasks :: "DeploymentSimulation \<Rightarrow> Task list" where
  "ready_tasks s = filter (\<lambda>t. status t = READY_TO_DEPLOY) (tasks s)"

definition calculate_daily_delay_cost :: "DeploymentSimulation \<Rightarrow> real \<times> DeploymentSimulation" where
  "calculate_daily_delay_cost s =
     (if ready_tasks s \<noteq> [] \<and> \<not> should_deploy_today s then
        (let delay_cost = real (length (ready_tasks s)) * hourly_revenue (params s) * 24
         in (0 + delay_cost,
             s\<lparr>total_cost := total_cost s + delay_cost,
               metrics := (metrics s)
                 \<lparr>delayed_tasks := delayed_tasks (metrics s) + int (length (ready_tasks s))\<rparr>\<rparr>))
      else (0, s))"

subsection \<open>The day-step and the run\<close>

text \<open>
  \<open>day_parts\<close> is the body of \<open>simulate_day\<close> up to its two locals, \<open>deploy_cost\<close> and
  \<open>delay_cost\<close>; \<open>simulate_day\<close> appends their sum and advances the clock.
\<close>

definition day_parts :: "random_source \<Rightarrow> DeploymentSimulation \<Rightarrow> (real \<times> real) outcome" where
  "day_parts g s =
     (case generate_daily_tasks g s of
        Raised err s1 \<Rightarrow> Raised err s1
      | Returned u s1 \<Rightarrow>
          (case progress_tasks g s1 of
             Raised err s2 \<Rightarrow> Raised err s2
           | Returned u s2 \<Rightarrow>
               (let dep = attempt_deployments g s2;
                    del = calculate_daily_delay_cost (snd dep)
                in Returned (fst dep, fst del) (snd del))))"

definition simulate_day :: "random_source \<Rightarrow> DeploymentSimulation \<Rightarrow> unit outcome" where
  "simulate_day g s =
     (case day_parts g s of
        Raised err s' \<Rightarrow> Raised err s'
      | Returned c s' \<Rightarrow>
          Returned ()
            (s'\<lparr>daily_costs := daily_costs s' @ [fst c + snd c],
                current_date := current_date s' + 1\<rparr>))"

fun run_days :: "random_source \<Rightarrow> nat \<Rightarrow> DeploymentSimulation \<Rightarrow> unit outcome" where
  "run_days g 0 s = Returned () s"
| "run_days g (Suc n) s =
     (case simulate_day g s of
        Raised err s' \<Rightarrow> Raised err s'
      | Returned u s' \<Rightarrow> run_days g n s')"

definition result_of :: "DeploymentSimulation \<Rightarrow> SimulationResult" where
  "result_of s =
     \<lparr> res_total_cost = total_cost s, res_daily_costs = daily_costs s,
       res_metrics = metrics s, res_allow_friday_deploys = allow_friday_deploys s \<rparr>"

definition run_simulation :: "random_source \<Rightarrow> int \<Rightarrow> DeploymentSimulation
    \<Rightarrow> SimulationResult outcome" where
  "run_simulation g days s =
     (case run_days g (nat days) s of
        Raised err s' \<Rightarrow> Raised err s'
      | Returned u s' \<Rightarrow> Returned (result_of s') s')"

section \<open>Specification predicates\<close>

text \<open>
  What an operation leaves alone: \<open>config_kept\<close> (parameters, multiplier, policy flag,
  clock) and \<open>ledger_kept\<close> (costs and counters). \<open>fresh\<close> describes a task as
  \<open>generate_daily_tasks\<close> creates it. \<open>progress_rel\<close> and \<open>deploy_rel\<close> relate a task
  before and after \<open>progress_tasks\<close> and \<open>attempt_deployments\<close>; \<open>day_tasks\<close> chains
  them over the sub-steps of one day. \<open>forward\<close> is the order of the status chain.
  \<open>reach s0 n s\<close>: the object is in state \<open>s\<close> after \<open>n\<close> completed day-steps from
  \<open>s0\<close>, with any random source at each step; a day-step that raised leaves its
  partial mutations behind and does not count.
\<close>

definition config_kept :: "DeploymentSimulation \<Rightarrow> DeploymentSimulation \<Rightarrow> bool" where
  "config_kept s s' =
     (params s' = params s \<and> failure_cost_multiplier s' = failure_cost_multiplier s
      \<and> allow_friday_deploys s' = allow_friday_deploys s \<and> current_date s' = current_date s)"

definition ledger_kept :: "DeploymentSimulation \<Rightarrow> DeploymentSimulation \<Rightarrow> bool" where
  "ledger_kept s s' =
     (total_cost s' = total_cost s \<and> daily_costs s' = daily_costs s \<and> metrics s' = metrics s)"

definition fresh :: "Task \<Rightarrow> bool" where
  "fresh t = (status t = IN_PROGRESS \<and> deploy_date t = None \<and> recovery_hours t = 0
      \<and> length (dependencies t) \<le> 1)"

definition progress_rel :: "Task \<Rightarrow> Task \<Rightarrow> bool" where
  "progress_rel t t' =
     (t' = t \<or>
      (status t = IN_PROGRESS \<and>
       (\<exists>d st. t' = t\<lparr>status := st, dependencies := d\<rparr>
          \<and> (st = IN_PROGRESS \<or> st = READY_TO_DEPLOY)
          \<and> length d \<le> length (dependencies t) \<and> set d \<subseteq> set (dependencies t))))"

definition deploy_rel :: "date \<Rightarrow> real \<Rightarrow> Task \<Rightarrow> Task \<Rightarrow> bool" where
  "deploy_rel d rh t t' =
     (t' = t \<or>
      (status t = READY_TO_DEPLOY \<and>
       (t' = t\<lparr>status := DEPLOYED, deploy_date := Some d\<rparr>
        \<or> t' = t\<lparr>status := FAILED, recovery_hours := rh\<rparr>)))"

fun returned :: "'a outcome \<Rightarrow> bool" where
  "returned (Raised err s) = False"
| "returned (Returned v s) = True"

inductive reach :: "DeploymentSimulation \<Rightarrow> nat \<Rightarrow> DeploymentSimulation \<Rightarrow> bool"
  for s0 :: DeploymentSimulation where
  start: "reach s0 0 s0"
| day: "reach s0 n s \<Longrightarrow> simulate_day g s = Returned u s' \<Longrightarrow> reach s0 (Suc n) s'"
| interrupted: "reach s0 n s \<Longrightarrow> simulate_day g s = Raised err s' \<Longrightarrow> reach s0 n s'"

definition day_tasks :: "DeploymentSimulation \<Rightarrow> Task list \<Rightarrow> bool" where
  "day_tasks s ts =
     (\<exists>new mid. (\<forall>t\<in>set new. fresh t) \<and> list_all2 progress_rel (tasks s @ new) mid
        \<and> list_all2 (deploy_rel (current_date s) (calculate_recovery_time s)) mid ts)"

fun forward :: "TaskStatus \<Rightarrow> TaskStatus \<Rightarrow> bool" where
  "forward IN_PROGRESS b = True"
| "forward READY_TO_DEPLOY b = (b \<noteq> IN_PROGRESS)"
| "forward DEPLOYED b = (b = DEPLOYED)"
| "forward FAILED b = (b = FAILED)"

definition task_ok :: "SimulationParameters \<Rightarrow> Task \<Rightarrow> bool" where
  "task_ok p t =
     (((deploy_date t \<noteq> None) = (status t = DEPLOYED))
      \<and> (status t \<noteq> FAILED \<longrightarrow> recovery_hours t = 0)
      \<and> (status t = FAILED \<longrightarrow>
            recovery_hours t = normal_recovery_hours p
          \<or> recovery_hours t = normal_recovery_hours p * weekend_recovery_multiplier p))"

text \<open>
  For comparing two runs: \<open>agree g g' n\<close> says that two random sources deliver the same
  draws from position \<open>n\<close> on; \<open>alike s t\<close> that two objects differ at most in the
  multiplier and the two cost fields; \<open>alike_outcome\<close> and \<open>scaled_parts\<close> lift this to
  results. \<open>run_parts g n s\<close> lists, for the day-steps of \<open>run_days g n s\<close> that return,
  the locals \<open>deploy_cost\<close> (recovery plus downtime) and \<open>delay_cost\<close> of \<open>simulate_day\<close>.
  \<open>value_of\<close> is the returned value, if any.
\<close>

definition agree :: "random_source \<Rightarrow> random_source \<Rightarrow> nat \<Rightarrow> bool" where
  "agree g g' n = (\<forall>k\<ge>n. draw_float g k = draw_float g' k \<and> draw_nat g k = draw_nat g' k)"

definition alike :: "DeploymentSimulation \<Rightarrow> DeploymentSimulation \<Rightarrow> bool" where
  "alike s t =
     (params t = params s \<and> allow_friday_deploys t = allow_friday_deploys s
      \<and> current_date t = current_date s \<and> tasks t = tasks s
      \<and> task_counter t = task_counter s \<and> metrics t = metrics s \<and> rng_pos t = rng_pos s)"

fun alike_outcome :: "'a outcome \<Rightarrow> 'a outcome \<Rightarrow> bool" where
  "alike_outcome (Raised e s) (Raised e' t) = (e = e' \<and> alike s t)"
| "alike_outcome (Returned v s) (Returned v' t) = (v = v' \<and> alike s t)"
| "alike_outcome (Raised e s) (Returned v' t) = False"
| "alike_outcome (Returned v s) (Raised e' t) = False"

fun scaled_parts :: "real \<Rightarrow> (real \<times> real) outcome \<Rightarrow> (real \<times> real) outcome \<Rightarrow> bool" where
  "scaled_parts k (Raised e s) (Raised e' t) = (e = e' \<and> alike s t)"
| "scaled_parts k (Returned c s) (Returned c' t) =
     (fst c' = k * fst c \<and> snd c' = snd c \<and> alike s t)"
| "scaled_parts k (Raised e s) (Returned c' t) = False"
| "scaled_parts k (Returned c s) (Raised e' t) = False"

fun run_parts :: "random_source \<Rightarrow> nat \<Rightarrow> DeploymentSimulation \<Rightarrow> (real \<times> real) list" where
  "run_parts g 0 s = []"
| "run_parts g (Suc n) s =
     (case day_parts g s of
        Raised err s' \<Rightarrow> []
      | Returned c s' \<Rightarrow> c # run_parts g n (state_of (simulate_day g s)))"

fun value_of :: "'a outcome \<Rightarrow> 'a option" where
  "value_of (Raised err s) = None"
| "value_of (Returned v s) = Some v"

section \<open>Concrete scenarios\<close>

text \<open>
  Random sources with constant draws, three dates (2026-11-02 is a Monday, 2026-11-06 a
  Friday, 2026-11-07 a Saturday) and a registry holding one ready task. With every
  \<open>random()\<close> equal to \<open>0\<close> each comparison against a positive probability succeeds;
  with \<open>0.1\<close> tasks get ready and deploy without failing; with \<open>0.9\<close> nothing happens.
  \<open>g_deps\<close> attaches a dependency to every task and resolves only the second one.
  \<open>zero_recovery\<close> is the default configuration with \<open>normal_recovery_hours = 0\<close>,
  \<open>no_teams\<close> the one without external teams, \<open>bad_range\<close> the one with complexity range
  \<open>(5, 1)\<close>. \<open>g_late\<close> differs from \<open>g_zero\<close> at the first five positions only.
  2026-11-05 is a Thursday.
\<close>

definition g_zero :: random_source where
  "g_zero = \<lparr> draw_float = (\<lambda>k. 0), draw_nat = (\<lambda>k. 0) \<rparr>"

definition g_tenth :: random_source where
  "g_tenth = \<lparr> draw_float = (\<lambda>k. 1 / 10), draw_nat = (\<lambda>k. 0) \<rparr>"

definition g_high :: random_source where
  "g_high = \<lparr> draw_float = (\<lambda>k. 9 / 10), draw_nat = (\<lambda>k. 0) \<rparr>"

definition monday :: date where
  "monday = 739922"

definition friday :: date where
  "friday = 739926"

definition saturday :: date where
  "saturday = 739927"

definition ready_task :: Task where
  "ready_task =
     \<lparr> task_id = 1, created_date = monday, complexity = 1, status = READY_TO_DEPLOY,
       deploy_date = None, recovery_hours = 0, dependencies = [] \<rparr>"

definition one_ready :: "date \<Rightarrow> bool \<Rightarrow> DeploymentSimulation" where
  "one_ready d allow = (init d 0 allow None 1)\<lparr>tasks := [ready_task], task_counter := 1\<rparr>"

definition g_deps :: random_source where
  "g_deps = \<lparr> draw_float = (\<lambda>k. if k mod 3 = 1 then 0 else 9 / 10), draw_nat = (\<lambda>k. 0) \<rparr>"

definition zero_recovery :: SimulationParameters where
  "zero_recovery = SIMULATION_DEFAULTS\<lparr>normal_recovery_hours := 0\<rparr>"

definition monday_start :: DeploymentSimulation where
  "monday_start = init monday 0 False None 1"

definition friday_start :: DeploymentSimulation where
  "friday_start = init friday 0 False None 1"

definition zero_recovery_start :: DeploymentSimulation where
  "zero_recovery_start = init monday 0 True (Some zero_recovery) 1"

definition thursday :: date where
  "thursday = 739925"

definition g_late :: random_source where
  "g_late = \<lparr> draw_float = (\<lambda>k. if k < 5 then 1 / 2 else 0), draw_nat = (\<lambda>k. if k < 5 then 7 else 0) \<rparr>"



section \<open>Auxiliary lemmas\<close>

lemmas scenario_defs =
  g_zero_def g_tenth_def g_high_def monday_def friday_def saturday_def ready_task_def
  one_ready_def init_def SIMULATION_DEFAULTS_def weekday_def

lemma config_kept_refl [simp]: "config_kept s s"
  by (simp add: config_kept_def)

lemma ledger_kept_refl [simp]: "ledger_kept s s"
  by (simp add: ledger_kept_def)

lemma config_kept_trans: "config_kept a b \<Longrightarrow> config_kept b c \<Longrightarrow> config_kept a c"
  by (simp add: config_kept_def)

lemma ledger_kept_trans: "ledger_kept a b \<Longrightarrow> ledger_kept b c \<Longrightarrow> ledger_kept a c"
  by (simp add: ledger_kept_def)

lemma progress_rel_refl [simp]: "progress_rel t t"
  by (simp add: progress_rel_def)

lemma deploy_rel_refl [simp]: "deploy_rel d rh t t"
  by (simp add: deploy_rel_def)

lemma progress_rel_trans:
  assumes "progress_rel a b" and "progress_rel b c"
  shows "progress_rel a c"
proof (cases "b = a")
  case True
  with assms show ?thesis by simp
next
  case ab: False
  show ?thesis
  proof (cases "c = b")
    case True
    with assms show ?thesis by simp
  next
    case False
    from assms(1) ab obtain d st where a: "status a = IN_PROGRESS"
      and b: "b = a\<lparr>status := st, dependencies := d\<rparr>"
      and d: "length d \<le> length (dependencies a)" "set d \<subseteq> set (dependencies a)"
      by (auto simp: progress_rel_def)
    from assms(2) False obtain d' st' where
      c: "c = b\<lparr>status := st', dependencies := d'\<rparr>"
      and st': "st' = IN_PROGRESS \<or> st' = READY_TO_DEPLOY"
      and d': "length d' \<le> length (dependencies b)" "set d' \<subseteq> set (dependencies b)"
      by (auto simp: progress_rel_def)
    have "c = a\<lparr>status := st', dependencies := d'\<rparr>"
      using b c by simp
    moreover have "length d' \<le> length (dependencies a)" "set d' \<subseteq> set (dependencies a)"
      using d d' b by auto
    ultimately show ?thesis
      using a st' unfolding progress_rel_def by blast
  qed
qed

lemma list_all2_update_right:
  assumes "\<And>x. R x x" and "i < length xs \<longrightarrow> R (xs ! i) y"
  shows "list_all2 R xs (xs[i := y])"
proof (cases "i < length xs")
  case True
  with assms show ?thesis
    by (simp add: list_all2_conv_all_nth nth_list_update)
next
  case False
  with assms(1) show ?thesis
    by (simp add: list_all2_conv_all_nth)
qed

lemma list_all2_trans_rel:
  assumes "\<And>a b c. R a b \<Longrightarrow> R b c \<Longrightarrow> R a c"
    and "list_all2 R xs ys" and "list_all2 R ys zs"
  shows "list_all2 R xs zs"
  using assms by (rule list_all2_trans)

subsection \<open>Task generation keeps the ledger and appends fresh tasks\<close>

lemma generate_task_frame:
  "config_kept s (state_of (generate_task g s)) \<and> ledger_kept s (state_of (generate_task g s))
   \<and> rng_pos s \<le> rng_pos (state_of (generate_task g s))
   \<and> (\<exists>new. tasks (state_of (generate_task g s)) = tasks s @ new \<and> (\<forall>t\<in>set new. fresh t))"
  by (auto simp: generate_task_def Let_def config_kept_def ledger_kept_def fresh_def
      split: option.splits)

lemma generate_loop_frame:
  "config_kept s (state_of (generate_loop g n s)) \<and> ledger_kept s (state_of (generate_loop g n s))
   \<and> rng_pos s \<le> rng_pos (state_of (generate_loop g n s))
   \<and> (\<exists>new. tasks (state_of (generate_loop g n s)) = tasks s @ new \<and> (\<forall>t\<in>set new. fresh t))"
proof (induction n arbitrary: s)
  case 0
  show ?case by simp
next
  case (Suc n)
  show ?case
  proof (cases "generate_task g s")
    case (Raised err s')
    with generate_task_frame [of s g] show ?thesis by simp
  next
    case (Returned u s')
    from generate_task_frame [of s g] Returned obtain new where
      1: "config_kept s s'" "ledger_kept s s'" "rng_pos s \<le> rng_pos s'"
         "tasks s' = tasks s @ new" "\<forall>t\<in>set new. fresh t"
      by auto
    from Suc.IH [of s'] obtain new' where
      2: "config_kept s' (state_of (generate_loop g n s'))"
         "ledger_kept s' (state_of (generate_loop g n s'))"
         "rng_pos s' \<le> rng_pos (state_of (generate_loop g n s'))"
         "tasks (state_of (generate_loop g n s')) = tasks s' @ new'" "\<forall>t\<in>set new'. fresh t"
      by auto
    have eq: "state_of (generate_loop g (Suc n) s) = state_of (generate_loop g n s')"
      using Returned by simp
    have t: "tasks (state_of (generate_loop g n s')) = tasks s @ (new @ new')"
      using 1 2 by simp
    have f: "\<forall>t\<in>set (new @ new'). fresh t"
      using 1 2 by auto
    have c: "config_kept s (state_of (generate_loop g n s'))"
      using 1(1) 2(1) by (rule config_kept_trans)
    have l: "ledger_kept s (state_of (generate_loop g n s'))"
      using 1(2) 2(2) by (rule ledger_kept_trans)
    have r: "rng_pos s \<le> rng_pos (state_of (generate_loop g n s'))"
      using 1(3) 2(3) by (rule le_trans)
    show ?thesis
      unfolding eq using c l r t f by blast
  qed
qed

lemma generate_daily_tasks_frame:
  "config_kept s (state_of (generate_daily_tasks g s))
   \<and> ledger_kept s (state_of (generate_daily_tasks g s))
   \<and> rng_pos s \<le> rng_pos (state_of (generate_daily_tasks g s))
   \<and> (\<exists>new. tasks (state_of (generate_daily_tasks g s)) = tasks s @ new
         \<and> (\<forall>t\<in>set new. fresh t))"
  unfolding generate_daily_tasks_def by (rule generate_loop_frame)

subsection \<open>Dependency resolution only removes\<close>

declare resolve_dependencies.simps [simp del]

lemma resolve_stop:
  "\<not> i < length deps \<Longrightarrow> resolve_dependencies g teams i deps pos = (None, deps, pos)"
  by (subst resolve_dependencies.simps) simp

lemma resolve_unknown:
  "i < length deps \<Longrightarrow> find (\<lambda>t. name t = deps ! i) teams = None \<Longrightarrow>
   resolve_dependencies g teams i deps pos = (Some StopIteration, deps, pos)"
  by (subst resolve_dependencies.simps) simp

lemma resolve_done:
  "i < length deps \<Longrightarrow> find (\<lambda>t. name t = deps ! i) teams = Some team \<Longrightarrow>
   draw_float g pos < task_completion_rate team \<Longrightarrow>
   resolve_dependencies g teams i deps pos =
     resolve_dependencies g teams (Suc i) (remove1 (deps ! i) deps) (pos + 1)"
  by (subst resolve_dependencies.simps) simp

lemma resolve_pending:
  "i < length deps \<Longrightarrow> find (\<lambda>t. name t = deps ! i) teams = Some team \<Longrightarrow>
   \<not> draw_float g pos < task_completion_rate team \<Longrightarrow>
   resolve_dependencies g teams i deps pos =
     resolve_dependencies g teams (Suc i) deps (pos + 1)"
  by (subst resolve_dependencies.simps) simp

lemma resolve_dependencies_shrinks:
  "length (fst (snd (resolve_dependencies g teams i deps pos))) \<le> length deps
   \<and> set (fst (snd (resolve_dependencies g teams i deps pos))) \<subseteq> set deps
   \<and> pos \<le> snd (snd (resolve_dependencies g teams i deps pos))"
proof (induction g teams i deps pos rule: resolve_dependencies.induct)
  case (1 g teams i deps pos)
  show ?case
  proof (cases "i < length deps")
    case False
    then show ?thesis by (simp add: resolve_stop)
  next
    case True
    show ?thesis
    proof (cases "find (\<lambda>t. name t = deps ! i) teams")
      case None
      with True show ?thesis by (simp add: resolve_unknown)
    next
      case (Some team)
      show ?thesis
      proof (cases "draw_float g pos < task_completion_rate team")
        case yes: True
        have len: "length (remove1 (deps ! i) deps) \<le> length deps"
          by (simp add: length_remove1)
        have sub: "set (remove1 (deps ! i) deps) \<subseteq> set deps"
          by (rule set_remove1_subset)
        from "1.IH"(1) [OF True refl Some yes] len sub
        show ?thesis
          unfolding resolve_done [OF True Some yes] by auto
      next
        case no: False
        from "1.IH"(2) [OF True refl Some no]
        show ?thesis
          unfolding resolve_pending [OF True Some no] by auto
      qed
    qed
  qed
qed

subsection \<open>Task progression\<close>

lemma progress_task_frame:
  "config_kept s (state_of (progress_task g i s)) \<and> ledger_kept s (state_of (progress_task g i s))
   \<and> rng_pos s \<le> rng_pos (state_of (progress_task g i s))
   \<and> task_counter (state_of (progress_task g i s)) = task_counter s
   \<and> list_all2 progress_rel (tasks s) (tasks (state_of (progress_task g i s)))"
proof (cases "status (tasks s ! i) = IN_PROGRESS")
  case False
  then show ?thesis
    by (simp add: progress_task_def Let_def list_all2_refl)
next
  case True
  define t where "t = tasks s ! i"
  define res where "res = (if dependencies t \<noteq> []
       then resolve_dependencies g (other_teams (params s)) 0 (dependencies t) (rng_pos s)
       else (None, dependencies t, rng_pos s))"
  define deps where "deps = fst (snd res)"
  have shr: "length deps \<le> length (dependencies t) \<and> set deps \<subseteq> set (dependencies t)
      \<and> rng_pos s \<le> snd (snd res)"
    using resolve_dependencies_shrinks [of g "other_teams (params s)" 0 "dependencies t" "rng_pos s"]
    by (simp add: res_def deps_def)
  have st: "status t = IN_PROGRESS"
    using True by (simp add: t_def)
  have e1: "t\<lparr>dependencies := deps\<rparr> = t\<lparr>status := IN_PROGRESS, dependencies := deps\<rparr>"
    using st by simp
  have e2: "t\<lparr>dependencies := deps, status := READY_TO_DEPLOY\<rparr>
      = t\<lparr>status := READY_TO_DEPLOY, dependencies := deps\<rparr>"
    by simp
  have r1: "progress_rel t (t\<lparr>dependencies := deps\<rparr>)"
    unfolding progress_rel_def using st shr e1 by blast
  have r2: "progress_rel t (t\<lparr>dependencies := deps, status := READY_TO_DEPLOY\<rparr>)"
    unfolding progress_rel_def using st shr e2 by blast
  have l1: "list_all2 progress_rel (tasks s) ((tasks s)[i := t\<lparr>dependencies := deps\<rparr>])"
    using r1 by (intro list_all2_update_right) (simp_all add: t_def)
  have l2: "list_all2 progress_rel (tasks s)
      ((tasks s)[i := t\<lparr>dependencies := deps, status := READY_TO_DEPLOY\<rparr>])"
    using r2 by (intro list_all2_update_right) (simp_all add: t_def)
  show ?thesis
    using True shr l1 l2
    by (auto simp: progress_task_def Let_def config_kept_def ledger_kept_def
        t_def [symmetric] res_def [symmetric] deps_def [symmetric] split: option.splits)
qed

lemma progress_loop_frame:
  "config_kept s (state_of (progress_loop g is s)) \<and> ledger_kept s (state_of (progress_loop g is s))
   \<and> rng_pos s \<le> rng_pos (state_of (progress_loop g is s))
   \<and> task_counter (state_of (progress_loop g is s)) = task_counter s
   \<and> list_all2 progress_rel (tasks s) (tasks (state_of (progress_loop g is s)))"
proof (induction "is" arbitrary: s)
  case Nil
  show ?case by (simp add: list_all2_refl)
next
  case (Cons i "is")
  show ?case
  proof (cases "progress_task g i s")
    case (Raised err s')
    with progress_task_frame [of s g i] show ?thesis by simp
  next
    case (Returned u s')
    have eq: "state_of (progress_loop g (i # is) s) = state_of (progress_loop g is s')"
      using Returned by simp
    from progress_task_frame [of s g i] Returned have
      1: "config_kept s s'" "ledger_kept s s'" "rng_pos s \<le> rng_pos s'"
         "task_counter s' = task_counter s" "list_all2 progress_rel (tasks s) (tasks s')"
      by auto
    note 2 = Cons.IH [of s']
    have c: "config_kept s (state_of (progress_loop g is s'))"
      using 1(1) 2 by (blast intro: config_kept_trans)
    have l: "ledger_kept s (state_of (progress_loop g is s'))"
      using 1(2) 2 by (blast intro: ledger_kept_trans)
    have r: "rng_pos s \<le> rng_pos (state_of (progress_loop g is s'))"
      using 1(3) 2 by (blast intro: le_trans)
    have k: "task_counter (state_of (progress_loop g is s')) = task_counter s"
      using 1(4) 2 by simp
    have t: "list_all2 progress_rel (tasks s) (tasks (state_of (progress_loop g is s')))"
      using 1(5) 2 by (blast intro: list_all2_trans_rel [of progress_rel] progress_rel_trans)
    show ?thesis
      unfolding eq using c l r k t by blast
  qed
qed

lemma progress_tasks_frame:
  "config_kept s (state_of (progress_tasks g s)) \<and> ledger_kept s (state_of (progress_tasks g s))
   \<and> rng_pos s \<le> rng_pos (state_of (progress_tasks g s))
   \<and> task_counter (state_of (progress_tasks g s)) = task_counter s
   \<and> list_all2 progress_rel (tasks s) (tasks (state_of (progress_tasks g s)))"
  unfolding progress_tasks_def by (rule progress_loop_frame)

subsection \<open>Deployment attempts and delay cost\<close>

lemma calculate_recovery_time_cong:
  "params s' = params s \<Longrightarrow> current_date s' = current_date s \<Longrightarrow>
   calculate_recovery_time s' = calculate_recovery_time s"
  by (simp add: calculate_recovery_time_def Let_def)

lemma should_deploy_today_cong:
  "allow_friday_deploys s' = allow_friday_deploys s \<Longrightarrow> current_date s' = current_date s \<Longrightarrow>
   should_deploy_today s' = should_deploy_today s"
  by (simp add: should_deploy_today_def)

lemma deploy_task_frame:
  fixes g i c s
  defines "r \<equiv> deploy_task g i (c, s)"
  shows "config_kept s (snd r) \<and> daily_costs (snd r) = daily_costs s
     \<and> task_counter (snd r) = task_counter s
     \<and> rng_pos (snd r) = rng_pos s + 1
     \<and> delayed_tasks (metrics (snd r)) = delayed_tasks (metrics s)
     \<and> total_cost (snd r) - total_cost s = fst r - c
     \<and> (tasks (snd r) = (tasks s)[i := (tasks s ! i)\<lparr>status := DEPLOYED,
                                        deploy_date := Some (current_date s)\<rparr>]
        \<or> tasks (snd r) = (tasks s)[i := (tasks s ! i)\<lparr>status := FAILED,
                                        recovery_hours := calculate_recovery_time s\<rparr>])"
  unfolding r_def
  by (simp add: deploy_task_def Let_def config_kept_def calculate_recovery_time_def)

lemma deploy_task_rel:
  assumes "i < length (tasks s) \<longrightarrow> status (tasks s ! i) = READY_TO_DEPLOY"
  shows "list_all2 (deploy_rel (current_date s) (calculate_recovery_time s))
           (tasks s) (tasks (snd (deploy_task g i (c, s))))"
proof -
  have "deploy_rel (current_date s) (calculate_recovery_time s) (tasks s ! i)
          ((tasks s ! i)\<lparr>status := DEPLOYED, deploy_date := Some (current_date s)\<rparr>)"
    if "i < length (tasks s)"
    using that assms by (simp add: deploy_rel_def)
  moreover have "deploy_rel (current_date s) (calculate_recovery_time s) (tasks s ! i)
          ((tasks s ! i)\<lparr>status := FAILED, recovery_hours := calculate_recovery_time s\<rparr>)"
    if "i < length (tasks s)"
    using that assms by (simp add: deploy_rel_def)
  ultimately show ?thesis
    using deploy_task_frame [of s g i c]
    by (auto intro!: list_all2_update_right)
qed

lemma deploy_rel_trans:
  assumes "deploy_rel d rh a b" and "deploy_rel d rh b c"
  shows "deploy_rel d rh a c"
proof (cases "b = a")
  case True
  with assms show ?thesis by simp
next
  case False
  with assms(1) have "status b = DEPLOYED \<or> status b = FAILED"
    by (auto simp: deploy_rel_def)
  with assms(2) have "c = b"
    by (auto simp: deploy_rel_def)
  with assms(1) show ?thesis by simp
qed

lemma deploy_fold_frame:
  assumes "distinct is"
    and "\<forall>i\<in>set is. i < length (tasks s) \<and> status (tasks s ! i) = READY_TO_DEPLOY"
  shows "config_kept s (snd (fold (deploy_task g) is (c, s)))
     \<and> daily_costs (snd (fold (deploy_task g) is (c, s))) = daily_costs s
     \<and> task_counter (snd (fold (deploy_task g) is (c, s))) = task_counter s
     \<and> rng_pos s \<le> rng_pos (snd (fold (deploy_task g) is (c, s)))
     \<and> delayed_tasks (metrics (snd (fold (deploy_task g) is (c, s)))) = delayed_tasks (metrics s)
     \<and> total_cost (snd (fold (deploy_task g) is (c, s))) - total_cost s
          = fst (fold (deploy_task g) is (c, s)) - c
     \<and> list_all2 (deploy_rel (current_date s) (calculate_recovery_time s))
          (tasks s) (tasks (snd (fold (deploy_task g) is (c, s))))"
  using assms
proof (induction "is" arbitrary: c s)
  case Nil
  show ?case by (simp add: list_all2_refl)
next
  case (Cons i "is")
  define c1 where "c1 = fst (deploy_task g i (c, s))"
  define s1 where "s1 = snd (deploy_task g i (c, s))"
  have step: "deploy_task g i (c, s) = (c1, s1)"
    by (simp add: c1_def s1_def)
  have eq: "fold (deploy_task g) (i # is) (c, s) = fold (deploy_task g) is (c1, s1)"
    by (simp add: step)
  note f = deploy_task_frame [of s g i c, folded c1_def s1_def]
  have i: "i < length (tasks s)" "status (tasks s ! i) = READY_TO_DEPLOY" "i \<notin> set is"
    using Cons.prems by auto
  have rel1: "list_all2 (deploy_rel (current_date s) (calculate_recovery_time s))
      (tasks s) (tasks s1)"
    unfolding s1_def using i by (intro deploy_task_rel) simp
  have len: "length (tasks s1) = length (tasks s)"
    using f by auto
  have keep: "tasks s1 ! j = tasks s ! j" if "j \<in> set is" for j
  proof -
    from that i(3) have "i \<noteq> j" by auto
    then show ?thesis using f by auto
  qed
  have pre: "\<forall>j\<in>set is. j < length (tasks s1) \<and> status (tasks s1 ! j) = READY_TO_DEPLOY"
    using Cons.prems(2) len keep by simp
  have dist: "distinct is"
    using Cons.prems(1) by simp
  note ih = Cons.IH [OF dist pre, of c1]
  have cfg: "config_kept s s1"
    using f by simp
  have same: "current_date s1 = current_date s" "calculate_recovery_time s1 = calculate_recovery_time s"
    using cfg calculate_recovery_time_cong [of s1 s] by (simp_all add: config_kept_def)
  have rel2: "list_all2 (deploy_rel (current_date s) (calculate_recovery_time s))
      (tasks s1) (tasks (snd (fold (deploy_task g) is (c1, s1))))"
    using ih same by simp
  have rel: "list_all2 (deploy_rel (current_date s) (calculate_recovery_time s))
      (tasks s) (tasks (snd (fold (deploy_task g) is (c1, s1))))"
    using rel1 rel2 by (blast intro: list_all2_trans_rel [of "deploy_rel (current_date s) (calculate_recovery_time s)"]
        deploy_rel_trans)
  have c': "config_kept s (snd (fold (deploy_task g) is (c1, s1)))"
    using cfg ih by (blast intro: config_kept_trans)
  have cost: "total_cost (snd (fold (deploy_task g) is (c1, s1))) - total_cost s
      = fst (fold (deploy_task g) is (c1, s1)) - c"
  proof -
    have "total_cost s1 - total_cost s = c1 - c" using f by simp
    moreover have "total_cost (snd (fold (deploy_task g) is (c1, s1))) - total_cost s1
        = fst (fold (deploy_task g) is (c1, s1)) - c1"
      using ih by simp
    ultimately show ?thesis by simp
  qed
  have rest: "daily_costs (snd (fold (deploy_task g) is (c1, s1))) = daily_costs s"
    "task_counter (snd (fold (deploy_task g) is (c1, s1))) = task_counter s"
    "rng_pos s \<le> rng_pos (snd (fold (deploy_task g) is (c1, s1)))"
    "delayed_tasks (metrics (snd (fold (deploy_task g) is (c1, s1)))) = delayed_tasks (metrics s)"
    using f ih by simp_all
  show ?case
    unfolding eq using c' rest cost rel by blast
qed

lemma ready_positions_ok:
  "distinct (ready_positions s)
   \<and> (\<forall>i\<in>set (ready_positions s). i < length (tasks s) \<and> status (tasks s ! i) = READY_TO_DEPLOY)"
  by (simp add: ready_positions_def)

lemma attempt_deployments_frame:
  "config_kept s (snd (attempt_deployments g s))
   \<and> daily_costs (snd (attempt_deployments g s)) = daily_costs s
   \<and> task_counter (snd (attempt_deployments g s)) = task_counter s
   \<and> rng_pos s \<le> rng_pos (snd (attempt_deployments g s))
   \<and> delayed_tasks (metrics (snd (attempt_deployments g s))) = delayed_tasks (metrics s)
   \<and> total_cost (snd (attempt_deployments g s)) = total_cost s + fst (attempt_deployments g s)
   \<and> list_all2 (deploy_rel (current_date s) (calculate_recovery_time s))
        (tasks s) (tasks (snd (attempt_deployments g s)))"
proof (cases "should_deploy_today s")
  case False
  then show ?thesis
    by (simp add: attempt_deployments_def list_all2_refl)
next
  case True
  have eq: "attempt_deployments g s = fold (deploy_task g) (ready_positions s) (0, s)"
    using True by (simp add: attempt_deployments_def)
  from ready_positions_ok [of s] have d: "distinct (ready_positions s)"
    and r: "\<forall>i\<in>set (ready_positions s). i < length (tasks s) \<and> status (tasks s ! i) = READY_TO_DEPLOY"
    by blast+
  show ?thesis
    unfolding eq using deploy_fold_frame [OF d r, of g 0] by simp
qed

lemma attempt_deployments_skipped:
  "\<not> should_deploy_today s \<Longrightarrow> attempt_deployments g s = (0, s)"
  by (simp add: attempt_deployments_def)

lemma calculate_daily_delay_cost_frame:
  fixes s
  defines "r \<equiv> calculate_daily_delay_cost s"
  shows "config_kept s (snd r) \<and> daily_costs (snd r) = daily_costs s
     \<and> task_counter (snd r) = task_counter s \<and> rng_pos (snd r) = rng_pos s
     \<and> tasks (snd r) = tasks s
     \<and> failed_deploys (metrics (snd r)) = failed_deploys (metrics s)
     \<and> successful_deploys (metrics (snd r)) = successful_deploys (metrics s)
     \<and> total_recovery_hours (metrics (snd r)) = total_recovery_hours (metrics s)
     \<and> total_cost (snd r) = total_cost s + fst r"
  unfolding r_def
  by (simp add: calculate_daily_delay_cost_def Let_def config_kept_def)

lemma calculate_daily_delay_cost_value:
  "calculate_daily_delay_cost s =
     (if should_deploy_today s then (0, s)
      else (real (length (ready_tasks s)) * hourly_revenue (params s) * 24,
            s\<lparr>total_cost := total_cost s
                  + real (length (ready_tasks s)) * hourly_revenue (params s) * 24,
              metrics := (metrics s)\<lparr>delayed_tasks := delayed_tasks (metrics s)
                  + int (length (ready_tasks s))\<rparr>\<rparr>))"
  by (simp add: calculate_daily_delay_cost_def Let_def)

subsection \<open>The day-step\<close>

lemma list_all2_preserves:
  assumes "list_all2 R xs ys" and "\<forall>x\<in>set xs. P x" and "\<And>x y. R x y \<Longrightarrow> P x \<Longrightarrow> P y"
  shows "\<forall>y\<in>set ys. P y"
proof
  fix y assume "y \<in> set ys"
  then obtain i where i: "i < length ys" "y = ys ! i"
    by (auto simp: in_set_conv_nth)
  from assms(1) i have "R (xs ! i) y" "i < length xs"
    by (auto simp: list_all2_conv_all_nth)
  with assms(2,3) show "P y"
    by (metis nth_mem)
qed

lemma day_tasksI:
  "\<forall>t\<in>set new. fresh t \<Longrightarrow> list_all2 progress_rel (tasks s @ new) mid \<Longrightarrow>
   list_all2 (deploy_rel (current_date s) (calculate_recovery_time s)) mid ts \<Longrightarrow> day_tasks s ts"
  unfolding day_tasks_def by blast

lemma day_parts_raised:
  assumes "day_parts g s = Raised err s'"
  shows "config_kept s s' \<and> ledger_kept s s' \<and> rng_pos s \<le> rng_pos s' \<and> day_tasks s (tasks s')"
proof (cases "generate_daily_tasks g s")
  case (Raised e1 s1)
  with assms have s': "s' = s1" by (simp add: day_parts_def)
  from generate_daily_tasks_frame [of s g] Raised s' obtain new where
    1: "config_kept s s'" "ledger_kept s s'" "rng_pos s \<le> rng_pos s'"
       "tasks s' = tasks s @ new" "\<forall>t\<in>set new. fresh t"
    by auto
  have "day_tasks s (tasks s')"
    using 1(5) by (rule day_tasksI [where mid = "tasks s'"]) (simp_all add: 1(4) list_all2_refl)
  with 1 show ?thesis by simp
next
  case (Returned u1 s1)
  from generate_daily_tasks_frame [of s g] Returned obtain new where
    1: "config_kept s s1" "ledger_kept s s1" "rng_pos s \<le> rng_pos s1"
       "tasks s1 = tasks s @ new" "\<forall>t\<in>set new. fresh t"
    by auto
  from assms Returned have p: "progress_tasks g s1 = Raised err s'"
    by (simp add: day_parts_def Let_def split: outcome.splits)
  from progress_tasks_frame [of s1 g] p have
    2: "config_kept s1 s'" "ledger_kept s1 s'" "rng_pos s1 \<le> rng_pos s'"
       "list_all2 progress_rel (tasks s1) (tasks s')"
    by auto
  have "list_all2 progress_rel (tasks s @ new) (tasks s')"
    using 2(4) 1(4) by simp
  with 1(5) have "day_tasks s (tasks s')"
    by (rule day_tasksI) (simp add: list_all2_refl)
  with 1 2 show ?thesis
    by (blast intro: config_kept_trans ledger_kept_trans le_trans)
qed

lemma day_parts_returned:
  assumes "day_parts g s = Returned c s'"
  shows "config_kept s s' \<and> daily_costs s' = daily_costs s \<and> rng_pos s \<le> rng_pos s'
     \<and> day_tasks s (tasks s') \<and> total_cost s' = total_cost s + (fst c + snd c)
     \<and> (\<exists>s2. c = (fst (attempt_deployments g s2), fst (calculate_daily_delay_cost (snd (attempt_deployments g s2))))
           \<and> s' = snd (calculate_daily_delay_cost (snd (attempt_deployments g s2)))
           \<and> config_kept s s2 \<and> ledger_kept s s2)"
proof -
  from assms obtain u1 s1 where g1: "generate_daily_tasks g s = Returned u1 s1"
    by (auto simp: day_parts_def split: outcome.splits)
  from assms g1 obtain u2 s2 where g2: "progress_tasks g s1 = Returned u2 s2"
    by (auto simp: day_parts_def split: outcome.splits)
  define s3 where "s3 = snd (attempt_deployments g s2)"
  from assms g1 g2 have c: "c = (fst (attempt_deployments g s2), fst (calculate_daily_delay_cost s3))"
    and s': "s' = snd (calculate_daily_delay_cost s3)"
    by (simp_all add: day_parts_def Let_def s3_def)
  from generate_daily_tasks_frame [of s g] g1 obtain new where
    1: "config_kept s s1" "ledger_kept s s1" "rng_pos s \<le> rng_pos s1"
       "tasks s1 = tasks s @ new" "\<forall>t\<in>set new. fresh t"
    by auto
  from progress_tasks_frame [of s1 g] g2 have
    2: "config_kept s1 s2" "ledger_kept s1 s2" "rng_pos s1 \<le> rng_pos s2"
       "list_all2 progress_rel (tasks s1) (tasks s2)"
    by auto
  have c12: "config_kept s s2" using 1(1) 2(1) by (rule config_kept_trans)
  have l12: "ledger_kept s s2" using 1(2) 2(2) by (rule ledger_kept_trans)
  note 3 = attempt_deployments_frame [of s2 g, folded s3_def]
  note 4 = calculate_daily_delay_cost_frame [of s3, folded s']
  have same: "current_date s2 = current_date s" "calculate_recovery_time s2 = calculate_recovery_time s"
    using c12 calculate_recovery_time_cong [of s2 s] by (simp_all add: config_kept_def)
  have t3: "list_all2 (deploy_rel (current_date s) (calculate_recovery_time s)) (tasks s2) (tasks s')"
    using 3 4 same by simp
  have dt: "day_tasks s (tasks s')"
    using 1(5) _ t3 by (rule day_tasksI) (use 2(4) 1(4) in simp)
  have cfg: "config_kept s s'"
    using c12 3 4 by (blast intro: config_kept_trans)
  have dc: "daily_costs s' = daily_costs s"
    using l12 3 4 by (simp add: ledger_kept_def)
  have rp: "rng_pos s \<le> rng_pos s'"
    using 1(3) 2(3) 3 4 by simp
  have tc: "total_cost s' = total_cost s + (fst c + snd c)"
    using l12 3 4 c by (simp add: ledger_kept_def)
  show ?thesis
    using cfg dc rp dt tc c s' c12 l12 unfolding s3_def by blast
qed

lemma simulate_day_raised:
  "simulate_day g s = Raised err s' \<Longrightarrow> day_parts g s = Raised err s'"
  by (simp add: simulate_day_def split: outcome.splits)

lemma simulate_day_returned:
  "simulate_day g s = Returned u s' \<Longrightarrow>
   \<exists>c s4. day_parts g s = Returned c s4
     \<and> s' = s4\<lparr>daily_costs := daily_costs s4 @ [fst c + snd c], current_date := current_date s4 + 1\<rparr>"
  by (auto simp: simulate_day_def split: outcome.splits)

lemma day_tasks_preserves:
  assumes "day_tasks s ts" and "\<forall>t\<in>set (tasks s). P t"
    and "\<And>t. fresh t \<Longrightarrow> P t"
    and "\<And>t t'. progress_rel t t' \<Longrightarrow> P t \<Longrightarrow> P t'"
    and "\<And>t t'. deploy_rel (current_date s) (calculate_recovery_time s) t t' \<Longrightarrow> P t \<Longrightarrow> P t'"
  shows "\<forall>t\<in>set ts. P t"
proof -
  from assms(1) obtain new mid where n: "\<forall>t\<in>set new. fresh t"
    and p: "list_all2 progress_rel (tasks s @ new) mid"
    and d: "list_all2 (deploy_rel (current_date s) (calculate_recovery_time s)) mid ts"
    unfolding day_tasks_def by blast
  have "\<forall>t\<in>set (tasks s @ new). P t"
    using assms(2,3) n by auto
  with p have "\<forall>t\<in>set mid. P t"
    by (rule list_all2_preserves) (rule assms(4))
  with d show ?thesis
    by (rule list_all2_preserves) (rule assms(5))
qed

lemma day_tasks_nth:
  assumes "day_tasks s ts" and "i < length (tasks s)"
  shows "i < length ts \<and> forward (status (tasks s ! i)) (status (ts ! i))
     \<and> task_id (ts ! i) = task_id (tasks s ! i)"
proof -
  from assms(1) obtain new mid where
    p: "list_all2 progress_rel (tasks s @ new) mid"
    and d: "list_all2 (deploy_rel (current_date s) (calculate_recovery_time s)) mid ts"
    unfolding day_tasks_def by blast
  have l: "i < length mid" "i < length ts"
    using p d assms(2) by (auto dest!: list_all2_lengthD)
  have "progress_rel ((tasks s @ new) ! i) (mid ! i)"
    using p l by (simp add: list_all2_conv_all_nth)
  then have 1: "progress_rel (tasks s ! i) (mid ! i)"
    using assms(2) by (simp add: nth_append)
  have 2: "deploy_rel (current_date s) (calculate_recovery_time s) (mid ! i) (ts ! i)"
    using d l by (simp add: list_all2_conv_all_nth)
  from 1 2 have "forward (status (tasks s ! i)) (status (ts ! i))"
    by (cases "status (tasks s ! i)") (auto simp: progress_rel_def deploy_rel_def)
  moreover from 1 2 have "task_id (ts ! i) = task_id (tasks s ! i)"
    by (auto simp: progress_rel_def deploy_rel_def)
  ultimately show ?thesis using l by simp
qed

lemma simulate_day_state:
  "day_tasks s (tasks (state_of (simulate_day g s)))
   \<and> params (state_of (simulate_day g s)) = params s
   \<and> failure_cost_multiplier (state_of (simulate_day g s)) = failure_cost_multiplier s
   \<and> allow_friday_deploys (state_of (simulate_day g s)) = allow_friday_deploys s"
proof (cases "simulate_day g s")
  case (Raised err s')
  from day_parts_raised [OF simulate_day_raised [OF Raised]] Raised
  show ?thesis by (simp add: config_kept_def)
next
  case (Returned u s')
  from simulate_day_returned [OF Returned] obtain c s4 where
    d: "day_parts g s = Returned c s4"
    and s': "s' = s4\<lparr>daily_costs := daily_costs s4 @ [fst c + snd c],
                    current_date := current_date s4 + 1\<rparr>"
    by blast
  from day_parts_returned [OF d] Returned s'
  show ?thesis by (simp add: config_kept_def)
qed


subsection \<open>Reachable states\<close>

lemma reach_config:
  "reach s0 n s \<Longrightarrow> params s = params s0 \<and> failure_cost_multiplier s = failure_cost_multiplier s0
     \<and> allow_friday_deploys s = allow_friday_deploys s0"
proof (induction rule: reach.induct)
  case start
  show ?case by simp
next
  case (day n s g u s')
  with simulate_day_state [of s g] show ?case by simp
next
  case (interrupted n s g err s')
  with simulate_day_state [of s g] show ?case by simp
qed

lemma reach_tasks_invariant:
  assumes "reach s0 n s" and "\<forall>t\<in>set (tasks s0). P t"
    and "\<And>t. fresh t \<Longrightarrow> P t"
    and "\<And>t t'. progress_rel t t' \<Longrightarrow> P t \<Longrightarrow> P t'"
    and "\<And>x t t'. params x = params s0 \<Longrightarrow>
           deploy_rel (current_date x) (calculate_recovery_time x) t t' \<Longrightarrow> P t \<Longrightarrow> P t'"
  shows "\<forall>t\<in>set (tasks s). P t"
  using assms(1)
proof (induction rule: reach.induct)
  case start
  show ?case by (rule assms(2))
next
  case (day n s g u s')
  have p: "params s = params s0"
    using reach_config [OF day.hyps(1)] by simp
  have "day_tasks s (tasks s')"
    using simulate_day_state [of s g] day.hyps(2) by simp
  then show ?case
    using day.IH assms(3,4) assms(5) [OF p] by (rule day_tasks_preserves)
next
  case (interrupted n s g err s')
  have p: "params s = params s0"
    using reach_config [OF interrupted.hyps(1)] by simp
  have "day_tasks s (tasks s')"
    using simulate_day_state [of s g] interrupted.hyps(2) by simp
  then show ?case
    using interrupted.IH assms(3,4) assms(5) [OF p] by (rule day_tasks_preserves)
qed


lemma calculate_recovery_time_cases:
  "calculate_recovery_time x = normal_recovery_hours (params x)
   \<or> calculate_recovery_time x
        = normal_recovery_hours (params x) * weekend_recovery_multiplier (params x)"
  by (simp add: calculate_recovery_time_def Let_def)

lemma task_ok_deploy:
  assumes "params x = p" and "deploy_rel d (calculate_recovery_time x) t t'" and "task_ok p t"
  shows "task_ok p t'"
proof (cases "t' = t")
  case True
  with assms(3) show ?thesis by simp
next
  case False
  with assms(2) have r: "status t = READY_TO_DEPLOY"
    and c: "t' = t\<lparr>status := DEPLOYED, deploy_date := Some d\<rparr>
        \<or> t' = t\<lparr>status := FAILED, recovery_hours := calculate_recovery_time x\<rparr>"
    by (auto simp: deploy_rel_def)
  from assms(3) r have t: "deploy_date t = None" "recovery_hours t = 0"
    by (auto simp: task_ok_def)
  from c show ?thesis
  proof
    assume "t' = t\<lparr>status := DEPLOYED, deploy_date := Some d\<rparr>"
    with t show ?thesis by (simp add: task_ok_def)
  next
    assume "t' = t\<lparr>status := FAILED, recovery_hours := calculate_recovery_time x\<rparr>"
    with t calculate_recovery_time_cases [of x] assms(1) show ?thesis
      by (auto simp: task_ok_def)
  qed
qed

lemma reach_task_ok:
  assumes "reach (init today pos allow ps m) n s"
  shows "\<forall>t\<in>set (tasks s). task_ok (params (init today pos allow ps m)) t"
  using assms
proof (rule reach_tasks_invariant)
  show "\<forall>t\<in>set (tasks (init today pos allow ps m)).
      task_ok (params (init today pos allow ps m)) t"
    by (simp add: init_def)
next
  fix t assume "fresh t"
  then show "task_ok (params (init today pos allow ps m)) t"
    by (simp add: fresh_def task_ok_def)
next
  fix t t' assume "progress_rel t t'" "task_ok (params (init today pos allow ps m)) t"
  then show "task_ok (params (init today pos allow ps m)) t'"
    by (auto simp: progress_rel_def task_ok_def)
next
  fix x t t'
  assume "params x = params (init today pos allow ps m)"
    "deploy_rel (current_date x) (calculate_recovery_time x) t t'"
    "task_ok (params (init today pos allow ps m)) t"
  then show "task_ok (params (init today pos allow ps m)) t'"
    by (rule task_ok_deploy)
qed

subsection \<open>Evaluating the scenarios\<close>

lemma returned_unit: "returned r \<Longrightarrow> r = Returned () (state_of r)"
  by (cases r) simp_all

lemma reach_one_day:
  assumes "returned (simulate_day g s0)"
  shows "reach s0 (Suc 0) (state_of (simulate_day g s0))"
proof -
  have "simulate_day g s0 = Returned () (state_of (simulate_day g s0))"
    using assms by (rule returned_unit)
  with reach.start [of s0] show ?thesis
    by (rule reach.day)
qed

lemma monday_day_returns: "returned (simulate_day g_zero monday_start)"
  by code_simp

lemma monday_deps_day_returns: "returned (simulate_day g_deps monday_start)"
  by code_simp

lemma zero_recovery_day_returns: "returned (simulate_day g_zero zero_recovery_start)"
  by code_simp

lemma list_all2_nth_rel:
  "list_all2 R xs ys \<Longrightarrow> i < length xs \<Longrightarrow> length ys = length xs \<and> R (xs ! i) (ys ! i)"
  by (simp add: list_all2_conv_all_nth)

lemma friday_parts:
  "day_parts g_zero friday_start = Returned (0, 72000) (state_of (day_parts g_zero friday_start))"
  by code_simp

lemma monday_parts:
  "day_parts g_tenth monday_start = Returned (0, 0) (state_of (day_parts g_tenth monday_start))"
  by code_simp

subsection \<open>Two runs side by side\<close>

lemma agree_mono: "agree g g' n \<Longrightarrow> n \<le> m \<Longrightarrow> agree g g' m"
  by (simp add: agree_def)

lemma agree_at: "agree g g' n \<Longrightarrow> n \<le> k \<Longrightarrow> draw_float g k = draw_float g' k"
  "agree g g' n \<Longrightarrow> n \<le> k \<Longrightarrow> draw_nat g k = draw_nat g' k"
  by (simp_all add: agree_def)

lemma alike_refl [simp]: "alike s s"
  by (simp add: alike_def)

lemma alike_outcome_state: "alike_outcome r r' \<Longrightarrow> alike (state_of r) (state_of r')"
  by (cases r; cases r') simp_all

lemma alike_outcome_cases:
  assumes "alike_outcome r r'"
  obtains (raised) e s t where "r = Raised e s" "r' = Raised e t" "alike s t"
  | (returned) v s t where "r = Returned v s" "r' = Returned v t" "alike s t"
  using assms by (cases r; cases r') auto

lemma generate_task_alike:
  assumes "agree g g' (rng_pos s)" and "alike s t"
  shows "alike_outcome (generate_task g s) (generate_task g' t)"
proof -
  have d: "draw_nat g (rng_pos s) = draw_nat g' (rng_pos s)"
    "draw_float g (Suc (rng_pos s)) = draw_float g' (Suc (rng_pos s))"
    "draw_nat g (Suc (Suc (rng_pos s))) = draw_nat g' (Suc (Suc (rng_pos s)))"
    using assms(1) by (simp_all add: agree_def)
  show ?thesis
    using assms(2) d
    by (simp add: generate_task_def randint_def choice_def Let_def alike_def)
qed

lemma generate_loop_alike:
  assumes "agree g g' (rng_pos s)" and "alike s t"
  shows "alike_outcome (generate_loop g n s) (generate_loop g' n t)"
  using assms
proof (induction n arbitrary: s t)
  case 0
  then show ?case by simp
next
  case (Suc n)
  from generate_task_alike [OF Suc.prems] show ?case
  proof (cases rule: alike_outcome_cases)
    case (raised e s' t')
    then show ?thesis by simp
  next
    case (returned v s' t')
    have "rng_pos s \<le> rng_pos s'"
      using generate_task_frame [of s g] returned(1) by simp
    with Suc.prems(1) have "agree g g' (rng_pos s')"
      by (rule agree_mono)
    from Suc.IH [OF this returned(3)] returned(1,2) show ?thesis by simp
  qed
qed

lemma generate_daily_tasks_alike:
  assumes "agree g g' (rng_pos s)" and "alike s t"
  shows "alike_outcome (generate_daily_tasks g s) (generate_daily_tasks g' t)"
proof -
  have "params t = params s" using assms(2) by (simp add: alike_def)
  then show ?thesis
    unfolding generate_daily_tasks_def using generate_loop_alike [OF assms] by simp
qed

lemma resolve_dependencies_agree:
  "agree g g' pos \<Longrightarrow>
   resolve_dependencies g teams i deps pos = resolve_dependencies g' teams i deps pos"
proof (induction g teams i deps pos rule: resolve_dependencies.induct)
  case (1 g teams i deps pos)
  have f: "draw_float g pos = draw_float g' pos"
    using "1.prems" by (simp add: agree_def)
  have a: "agree g g' (pos + 1)"
    using "1.prems" by (rule agree_mono) simp
  show ?case
  proof (cases "i < length deps")
    case False
    then show ?thesis by (simp add: resolve_stop)
  next
    case True
    show ?thesis
    proof (cases "find (\<lambda>t. name t = deps ! i) teams")
      case None
      with True show ?thesis by (simp add: resolve_unknown)
    next
      case (Some team)
      show ?thesis
      proof (cases "draw_float g pos < task_completion_rate team")
        case yes: True
        then have yes': "draw_float g' pos < task_completion_rate team"
          using f by simp
        show ?thesis
          unfolding resolve_done [OF True Some yes] resolve_done [OF True Some yes']
          using "1.IH"(1) [OF True refl Some yes a] .
      next
        case no: False
        then have no': "\<not> draw_float g' pos < task_completion_rate team"
          using f by simp
        show ?thesis
          unfolding resolve_pending [OF True Some no] resolve_pending [OF True Some no']
          using "1.IH"(2) [OF True refl Some no a] .
      qed
    qed
  qed
qed

lemma progress_task_alike:
  assumes "agree g g' (rng_pos s)" and "alike s t"
  shows "alike_outcome (progress_task g i s) (progress_task g' i t)"
proof -
  define res where "res = (if dependencies (tasks s ! i) \<noteq> []
       then resolve_dependencies g (other_teams (params s)) 0 (dependencies (tasks s ! i)) (rng_pos s)
       else (None, dependencies (tasks s ! i), rng_pos s))"
  have res': "(if dependencies (tasks s ! i) \<noteq> []
       then resolve_dependencies g' (other_teams (params s)) 0 (dependencies (tasks s ! i)) (rng_pos s)
       else (None, dependencies (tasks s ! i), rng_pos s)) = res"
    unfolding res_def using resolve_dependencies_agree [OF assms(1)] by simp
  have "rng_pos s \<le> snd (snd res)"
    unfolding res_def
    using resolve_dependencies_shrinks [of g "other_teams (params s)" 0 "dependencies (tasks s ! i)" "rng_pos s"]
    by simp
  then have f: "draw_float g (snd (snd res)) = draw_float g' (snd (snd res))"
    using assms(1) by (simp add: agree_def)
  have t: "params t = params s" "tasks t = tasks s" "rng_pos t = rng_pos s"
    using assms(2) by (simp_all add: alike_def)
  show ?thesis
    unfolding progress_task_def t Let_def res' res_def [symmetric]
    using assms(2) f by (simp add: alike_def split: option.splits)
qed

lemma progress_loop_alike:
  assumes "agree g g' (rng_pos s)" and "alike s t"
  shows "alike_outcome (progress_loop g is s) (progress_loop g' is t)"
  using assms
proof (induction "is" arbitrary: s t)
  case Nil
  then show ?case by simp
next
  case (Cons i "is")
  from progress_task_alike [OF Cons.prems, of i] show ?case
  proof (cases rule: alike_outcome_cases)
    case (raised e s' t')
    then show ?thesis by simp
  next
    case (returned v s' t')
    have "rng_pos s \<le> rng_pos s'"
      using progress_task_frame [of s g i] returned(1) by simp
    with Cons.prems(1) have "agree g g' (rng_pos s')"
      by (rule agree_mono)
    from Cons.IH [OF this returned(3)] returned(1,2) show ?thesis by simp
  qed
qed

lemma progress_tasks_alike:
  assumes "agree g g' (rng_pos s)" and "alike s t"
  shows "alike_outcome (progress_tasks g s) (progress_tasks g' t)"
proof -
  have "tasks t = tasks s" using assms(2) by (simp add: alike_def)
  then show ?thesis
    unfolding progress_tasks_def using progress_loop_alike [OF assms] by simp
qed

lemma alike_policy:
  assumes "alike s t"
  shows "should_deploy_today t = should_deploy_today s"
    and "calculate_deploy_risk t = calculate_deploy_risk s"
    and "calculate_recovery_time t = calculate_recovery_time s"
    and "ready_positions t = ready_positions s"
    and "ready_tasks t = ready_tasks s"
  using assms
  by (simp_all add: alike_def should_deploy_today_def calculate_deploy_risk_def
      calculate_recovery_time_def ready_positions_def ready_tasks_def Let_def)

lemma deploy_task_scaled:
  assumes "agree g g' (rng_pos s)" and "alike s t"
    and "failure_cost_multiplier t = k * failure_cost_multiplier s"
  shows "alike (snd (deploy_task g i (c, s))) (snd (deploy_task g' i (c', t)))
     \<and> fst (deploy_task g' i (c', t)) - c' = k * (fst (deploy_task g i (c, s)) - c)"
proof -
  have d: "draw_float g' (rng_pos s) = draw_float g (rng_pos s)"
    using assms(1) by (simp add: agree_def)
  have t: "params t = params s" "tasks t = tasks s" "rng_pos t = rng_pos s"
    "current_date t = current_date s" "metrics t = metrics s"
    using assms(2) by (simp_all add: alike_def)
  show ?thesis
    using assms(2,3)
    by (simp add: deploy_task_def Let_def calculate_deploy_risk_def calculate_recovery_time_def
        t d alike_def algebra_simps)
qed

lemma deploy_fold_scaled:
  assumes "agree g g' (rng_pos s)" and "alike s t"
    and "failure_cost_multiplier t = k * failure_cost_multiplier s"
  shows "alike (snd (fold (deploy_task g) is (c, s))) (snd (fold (deploy_task g') is (c', t)))
     \<and> fst (fold (deploy_task g') is (c', t)) - c' = k * (fst (fold (deploy_task g) is (c, s)) - c)"
  using assms
proof (induction "is" arbitrary: s t c c')
  case Nil
  then show ?case by simp
next
  case (Cons i "is")
  define c1 where "c1 = fst (deploy_task g i (c, s))"
  define s1 where "s1 = snd (deploy_task g i (c, s))"
  define c1' where "c1' = fst (deploy_task g' i (c', t))"
  define t1 where "t1 = snd (deploy_task g' i (c', t))"
  have e: "fold (deploy_task g) (i # is) (c, s) = fold (deploy_task g) is (c1, s1)"
    "fold (deploy_task g') (i # is) (c', t) = fold (deploy_task g') is (c1', t1)"
    by (simp_all add: c1_def s1_def c1'_def t1_def)
  from deploy_task_scaled [OF Cons.prems, of i c c']
  have a: "alike s1 t1" and d: "c1' - c' = k * (c1 - c)"
    by (simp_all add: c1_def s1_def c1'_def t1_def)
  have fs: "failure_cost_multiplier s1 = failure_cost_multiplier s" "rng_pos s \<le> rng_pos s1"
    using deploy_task_frame [of s g i c] by (simp_all add: s1_def config_kept_def)
  have ft: "failure_cost_multiplier t1 = failure_cost_multiplier t"
    using deploy_task_frame [of t g' i c'] by (simp add: t1_def config_kept_def)
  have m: "failure_cost_multiplier t1 = k * failure_cost_multiplier s1"
    using fs ft Cons.prems(3) by simp
  have ag: "agree g g' (rng_pos s1)"
    using Cons.prems(1) fs(2) by (rule agree_mono)
  from Cons.IH [OF ag a m, of c1 c1']
  have "alike (snd (fold (deploy_task g) is (c1, s1))) (snd (fold (deploy_task g') is (c1', t1)))"
    and "fst (fold (deploy_task g') is (c1', t1)) - c1' = k * (fst (fold (deploy_task g) is (c1, s1)) - c1)"
    by blast+
  with d show ?case
    unfolding e by (simp add: algebra_simps)
qed

lemma attempt_deployments_scaled:
  assumes "agree g g' (rng_pos s)" and "alike s t"
    and "failure_cost_multiplier t = k * failure_cost_multiplier s"
  shows "alike (snd (attempt_deployments g s)) (snd (attempt_deployments g' t))
     \<and> fst (attempt_deployments g' t) = k * fst (attempt_deployments g s)"
proof (cases "should_deploy_today s")
  case False
  with assms(2) alike_policy(1) [OF assms(2)] show ?thesis
    by (simp add: attempt_deployments_def)
next
  case True
  with alike_policy(1,4) [OF assms(2)] deploy_fold_scaled [OF assms, of "ready_positions s" 0 0]
  show ?thesis
    by (simp add: attempt_deployments_def)
qed

lemma calculate_daily_delay_cost_alike:
  assumes "alike s t"
  shows "alike (snd (calculate_daily_delay_cost s)) (snd (calculate_daily_delay_cost t))
     \<and> fst (calculate_daily_delay_cost t) = fst (calculate_daily_delay_cost s)"
  using assms alike_policy(1,5) [OF assms]
  by (simp add: calculate_daily_delay_cost_def Let_def alike_def)

lemma day_parts_scaled:
  assumes "agree g g' (rng_pos s)" and "alike s t"
    and "failure_cost_multiplier t = k * failure_cost_multiplier s"
  shows "scaled_parts k (day_parts g s) (day_parts g' t)"
proof -
  from generate_daily_tasks_alike [OF assms(1,2)] show ?thesis
  proof (cases rule: alike_outcome_cases)
    case (raised e s1 t1)
    then show ?thesis by (simp add: day_parts_def)
  next
    case g1: (returned v s1 t1)
    have k1: "config_kept s s1" "rng_pos s \<le> rng_pos s1"
      using generate_daily_tasks_frame [of s g] g1(1) by simp_all
    have k1': "config_kept t t1"
      using generate_daily_tasks_frame [of t g'] g1(2) by simp
    have ag1: "agree g g' (rng_pos s1)"
      using assms(1) k1(2) by (rule agree_mono)
    from progress_tasks_alike [OF ag1 g1(3)] show ?thesis
    proof (cases rule: alike_outcome_cases)
      case (raised e s2 t2)
      with g1 show ?thesis by (simp add: day_parts_def)
    next
      case g2: (returned v s2 t2)
      have k2: "config_kept s1 s2" "rng_pos s1 \<le> rng_pos s2"
        using progress_tasks_frame [of s1 g] g2(1) by simp_all
      have k2': "config_kept t1 t2"
        using progress_tasks_frame [of t1 g'] g2(2) by simp
      have ag2: "agree g g' (rng_pos s2)"
        using ag1 k2(2) by (rule agree_mono)
      have m2: "failure_cost_multiplier t2 = k * failure_cost_multiplier s2"
        using assms(3) k1(1) k1' k2(1) k2' by (simp add: config_kept_def)
      note 3 = attempt_deployments_scaled [OF ag2 g2(3) m2]
      from 3 have a3: "alike (snd (attempt_deployments g s2)) (snd (attempt_deployments g' t2))"
        by blast
      note 4 = calculate_daily_delay_cost_alike [OF a3]
      show ?thesis
        using g1(1,2) g2(1,2) 3 4 by (simp add: day_parts_def Let_def)
    qed
  qed
qed

lemma simulate_day_scaled:
  assumes "agree g g' (rng_pos s)" and "alike s t"
    and "failure_cost_multiplier t = k * failure_cost_multiplier s"
  shows "alike_outcome (simulate_day g s) (simulate_day g' t)"
  using day_parts_scaled [OF assms]
  by (cases "day_parts g s"; cases "day_parts g' t") (simp_all add: simulate_day_def alike_def)

lemma simulate_day_rng:
  "rng_pos s \<le> rng_pos (state_of (simulate_day g s))"
proof (cases "simulate_day g s")
  case (Raised err s')
  from day_parts_raised [OF simulate_day_raised [OF Raised]] Raised
  show ?thesis by simp
next
  case (Returned u s')
  from simulate_day_returned [OF Returned] obtain c s4 where
    d: "day_parts g s = Returned c s4"
    and s': "s' = s4\<lparr>daily_costs := daily_costs s4 @ [fst c + snd c],
                    current_date := current_date s4 + 1\<rparr>"
    by blast
  from day_parts_returned [OF d] Returned s'
  show ?thesis by simp
qed

lemma run_scaled:
  assumes "agree g g' (rng_pos s)" and "alike s t"
    and "failure_cost_multiplier t = k * failure_cost_multiplier s"
  shows "alike_outcome (run_days g n s) (run_days g' n t)
     \<and> map fst (run_parts g' n t) = map (\<lambda>x. k * x) (map fst (run_parts g n s))
     \<and> map snd (run_parts g' n t) = map snd (run_parts g n s)"
  using assms
proof (induction n arbitrary: s t)
  case 0
  then show ?case by simp
next
  case (Suc n)
  note dp = day_parts_scaled [OF Suc.prems]
  from simulate_day_scaled [OF Suc.prems] show ?case
  proof (cases rule: alike_outcome_cases)
    case (raised e s' t')
    then have "day_parts g s = Raised e s'" "day_parts g' t = Raised e t'"
      by (simp_all add: simulate_day_raised)
    with raised show ?thesis by simp
  next
    case (returned v s' t')
    from returned(1) obtain c where c: "day_parts g s = Returned c (state_of (day_parts g s))"
      by (auto dest: simulate_day_returned)
    from returned(2) obtain c' where c': "day_parts g' t = Returned c' (state_of (day_parts g' t))"
      by (auto dest: simulate_day_returned)
    from dp c c' have cc: "fst c' = k * fst c" "snd c' = snd c"
      by (metis scaled_parts.simps(2))+
    have ag: "agree g g' (rng_pos s')"
      using Suc.prems(1) simulate_day_rng [of s g] returned(1) by (auto intro: agree_mono)
    have m: "failure_cost_multiplier t' = k * failure_cost_multiplier s'"
      using simulate_day_state [of s g] simulate_day_state [of t g'] returned(1,2) Suc.prems(3)
      by simp
    have rp: "run_parts g (Suc n) s = c # run_parts g n s'"
      using returned(1) by (subst run_parts.simps(2), subst c) simp
    have rp': "run_parts g' (Suc n) t = c' # run_parts g' n t'"
      using returned(2) by (subst run_parts.simps(2), subst c') simp
    from Suc.IH [OF ag returned(3) m] show ?thesis
      unfolding rp rp' using returned(1,2) cc by simp
  qed
qed

lemma run_parts_ledger:
  "daily_costs (state_of (run_days g n s))
     = daily_costs s @ map (\<lambda>c. fst c + snd c) (run_parts g n s)
   \<and> total_cost (state_of (run_days g n s))
     = total_cost s + sum_list (map fst (run_parts g n s)) + sum_list (map snd (run_parts g n s))"
proof (induction n arbitrary: s)
  case 0
  show ?case by simp
next
  case (Suc n)
  show ?case
  proof (cases "simulate_day g s")
    case (Raised err s')
    from day_parts_raised [OF simulate_day_raised [OF Raised]] Raised simulate_day_raised [OF Raised]
    show ?thesis by (simp add: ledger_kept_def)
  next
    case (Returned u s')
    from simulate_day_returned [OF Returned] obtain c s4 where
      d: "day_parts g s = Returned c s4"
      and s': "s' = s4\<lparr>daily_costs := daily_costs s4 @ [fst c + snd c],
                      current_date := current_date s4 + 1\<rparr>"
      by blast
    from day_parts_returned [OF d] have
      l: "daily_costs s4 = daily_costs s" "total_cost s4 = total_cost s + (fst c + snd c)"
      by blast+
    from Suc.IH [of s'] Returned d s' l show ?thesis
      by simp
  qed
qed



lemma parts_eqI:
  assumes "map fst p = map fst q" and "map snd p = map snd q"
  shows "p = (q :: ('a \<times> 'b) list)"
proof -
  have "zip (map fst p) (map snd p) = zip (map fst q) (map snd q)"
    using assms by simp
  then show ?thesis by (simp add: zip_map_fst_snd)
qed

lemma run_days_multiplier:
  "failure_cost_multiplier (state_of (run_days g n s)) = failure_cost_multiplier s"
proof (induction n arbitrary: s)
  case 0
  show ?case by simp
next
  case (Suc n)
  show ?case
  proof (cases "simulate_day g s")
    case (Raised err s')
    with simulate_day_state [of s g] show ?thesis by simp
  next
    case (Returned u s')
    with simulate_day_state [of s g] Suc.IH [of s'] show ?thesis by simp
  qed
qed

lemma alike_equal:
  assumes "alike s t" and "failure_cost_multiplier t = failure_cost_multiplier s"
    and "total_cost t = total_cost s" and "daily_costs t = daily_costs s"
  shows "t = s"
  using assms by (intro DeploymentSimulation.equality) (simp_all add: alike_def)

lemma run_days_agree:
  assumes "agree g g' (rng_pos s)"
  shows "run_days g' n s = run_days g n s"
proof -
  have m: "failure_cost_multiplier s = 1 * failure_cost_multiplier s" by simp
  from run_scaled [OF assms alike_refl m, of n]
  have a: "alike_outcome (run_days g n s) (run_days g' n s)"
    and p: "run_parts g' n s = run_parts g n s"
    by (auto intro: parts_eqI)
  have "alike (state_of (run_days g n s)) (state_of (run_days g' n s))"
    using a by (rule alike_outcome_state)
  moreover have "failure_cost_multiplier (state_of (run_days g' n s))
      = failure_cost_multiplier (state_of (run_days g n s))"
    by (simp add: run_days_multiplier)
  moreover have "total_cost (state_of (run_days g' n s)) = total_cost (state_of (run_days g n s))"
    "daily_costs (state_of (run_days g' n s)) = daily_costs (state_of (run_days g n s))"
    using run_parts_ledger [of g n s] run_parts_ledger [of g' n s] p by simp_all
  ultimately have "state_of (run_days g' n s) = state_of (run_days g n s)"
    by (rule alike_equal)
  with a show ?thesis
    by (cases "run_days g n s"; cases "run_days g' n s") simp_all
qed

lemma g_late_agrees: "agree g_zero g_late 5"
  by (simp add: agree_def g_zero_def g_late_def)


section \<open>Recovery time\<close>

text \<open>
  C7. A task that fails deployment gets \<open>recovery_hours\<close> equal to
  \<open>normal_recovery_hours * weekend_recovery_multiplier\<close> when the current day is a
  Friday, Saturday or Sunday (weekday 4, 5 or 6) and equal to \<open>normal_recovery_hours\<close>
  on every other weekday. The loop body is taken at a position \<open>i\<close> of the registry
  and at a draw below the failure chance.
\<close>

theorem failed_task_recovery_hours:
  assumes "i < length (tasks s)"
    and "draw_float g (rng_pos s) < calculate_deploy_risk s"
  shows "status (tasks (snd (deploy_task g i (c, s))) ! i) = FAILED
       \<and> recovery_hours (tasks (snd (deploy_task g i (c, s))) ! i) =
           (if weekday (current_date s) = 4 \<or> weekday (current_date s) = 5
               \<or> weekday (current_date s) = 6
            then normal_recovery_hours (params s) * weekend_recovery_multiplier (params s)
            else normal_recovery_hours (params s))"
  using assms
  by (simp add: deploy_task_def Let_def calculate_recovery_time_def calculate_deploy_risk_def)

theorem failed_task_recovery_hours_witness:
  "status (tasks (snd (deploy_task g_zero 0 (0, one_ready saturday True))) ! 0) = FAILED
   \<and> recovery_hours (tasks (snd (deploy_task g_zero 0 (0, one_ready saturday True))) ! 0) = 6
   \<and> recovery_hours (tasks (snd (deploy_task g_zero 0 (0, one_ready monday True))) ! 0) = 2"
  using failed_task_recovery_hours [of 0 "one_ready saturday True" g_zero 0]
    failed_task_recovery_hours [of 0 "one_ready monday True" g_zero 0]
  by (simp add: scenario_defs calculate_deploy_risk_def)

section \<open>The cost of a failed deployment\<close>



section \<open>The ledger\<close>



section \<open>Dependencies\<close>

text \<open>
  C10. Every task of every reachable state holds at most one dependency: a task is
  created with none or exactly one external-team name (\<open>generate_task_frame\<close>), and
  dependency resolution only removes (\<open>resolve_dependencies_shrinks\<close>), so a state in
  which a task holds two or more dependencies is unreachable.
\<close>

theorem at_most_one_dependency:
  assumes "reach (init today pos allow ps m) n s" and "t \<in> set (tasks s)"
  shows "length (dependencies t) \<le> 1"
proof -
  have "\<forall>t\<in>set (tasks s). length (dependencies t) \<le> 1"
    using assms(1)
  proof (rule reach_tasks_invariant)
    show "\<forall>t\<in>set (tasks (init today pos allow ps m)). length (dependencies t) \<le> 1"
      by (simp add: init_def)
  next
    fix t assume "fresh t"
    then show "length (dependencies t) \<le> 1" by (simp add: fresh_def)
  next
    fix t t' assume "progress_rel t t'" "length (dependencies t) \<le> 1"
    then show "length (dependencies t') \<le> 1"
      by (auto simp: progress_rel_def)
  next
    fix x t t'
    assume "deploy_rel (current_date x) (calculate_recovery_time x) t t'"
      "length (dependencies t) \<le> 1"
    then show "length (dependencies t') \<le> 1"
      by (auto simp: deploy_rel_def)
  qed
  with assms(2) show ?thesis by blast
qed

theorem at_most_one_dependency_witness:
  "reach monday_start (Suc 0) (state_of (simulate_day g_deps monday_start))
   \<and> tasks (state_of (simulate_day g_deps monday_start)) ! 0
        \<in> set (tasks (state_of (simulate_day g_deps monday_start)))
   \<and> length (dependencies (tasks (state_of (simulate_day g_deps monday_start)) ! 0)) \<le> 1
   \<and> map dependencies (tasks (state_of (simulate_day g_deps monday_start)))
        = [[''Backend Team''], [], [''Backend Team'']]"
proof -
  have r: "reach (init monday 0 False None 1) (Suc 0)
      (state_of (simulate_day g_deps monday_start))"
    using reach_one_day [OF monday_deps_day_returns] by (simp add: monday_start_def)
  have v: "map dependencies (tasks (state_of (simulate_day g_deps monday_start)))
        = [[''Backend Team''], [], [''Backend Team'']]"
    by code_simp
  have "length (tasks (state_of (simulate_day g_deps monday_start))) = 3"
    using arg_cong [OF v, of length] by simp
  then have m: "tasks (state_of (simulate_day g_deps monday_start)) ! 0
        \<in> set (tasks (state_of (simulate_day g_deps monday_start)))"
    by simp
  show ?thesis
    using at_most_one_dependency [OF r m] r m v by (simp add: monday_start_def)
qed

section \<open>Deploy date and recovery hours\<close>

text \<open>
  C8, as the source has it. In every reachable state and for every task: \<open>deploy_date\<close> is
  set if and only if the status is \<open>DEPLOYED\<close>; \<open>recovery_hours\<close> is \<open>0\<close> unless the status
  is \<open>FAILED\<close>; a failed task carries \<open>normal_recovery_hours\<close> or that times
  \<open>weekend_recovery_multiplier\<close>. Hence \<open>recovery_hours > 0\<close> if and only if the status is
  \<open>FAILED\<close> whenever both parameters are positive.
\<close>

theorem deploy_date_and_recovery_hours:
  assumes "reach (init today pos allow ps m) n s" and "t \<in> set (tasks s)"
  shows "((deploy_date t \<noteq> None) = (status t = DEPLOYED))
     \<and> (status t \<noteq> FAILED \<longrightarrow> recovery_hours t = 0)
     \<and> (status t = FAILED \<longrightarrow>
           recovery_hours t = normal_recovery_hours (params s)
         \<or> recovery_hours t = normal_recovery_hours (params s) * weekend_recovery_multiplier (params s))
     \<and> (0 < normal_recovery_hours (params s) \<and> 0 < weekend_recovery_multiplier (params s) \<longrightarrow>
           (0 < recovery_hours t) = (status t = FAILED))"
proof -
  have p: "params s = params (init today pos allow ps m)"
    using reach_config [OF assms(1)] by simp
  have ok: "task_ok (params s) t"
    using reach_task_ok [OF assms(1)] assms(2) p by simp
  show ?thesis
    using ok unfolding task_ok_def by (auto simp: zero_less_mult_iff)
qed

theorem deploy_date_and_recovery_hours_witness:
  "reach monday_start (Suc 0) (state_of (simulate_day g_zero monday_start))
   \<and> tasks (state_of (simulate_day g_zero monday_start)) ! 0
        \<in> set (tasks (state_of (simulate_day g_zero monday_start)))
   \<and> status (tasks (state_of (simulate_day g_zero monday_start)) ! 0) = FAILED
   \<and> (deploy_date (tasks (state_of (simulate_day g_zero monday_start)) ! 0) \<noteq> None)
       = (status (tasks (state_of (simulate_day g_zero monday_start)) ! 0) = DEPLOYED)
   \<and> (0 < recovery_hours (tasks (state_of (simulate_day g_zero monday_start)) ! 0))
       = (status (tasks (state_of (simulate_day g_zero monday_start)) ! 0) = FAILED)"
proof -
  have r: "reach (init monday 0 False None 1) (Suc 0)
      (state_of (simulate_day g_zero monday_start))"
    using reach_one_day [OF monday_day_returns] by (simp add: monday_start_def)
  have v: "map status (tasks (state_of (simulate_day g_zero monday_start)))
      = [FAILED, FAILED, FAILED]"
    by code_simp
  have "length (tasks (state_of (simulate_day g_zero monday_start))) = 3"
    using arg_cong [OF v, of length] by simp
  then have m: "tasks (state_of (simulate_day g_zero monday_start)) ! 0
        \<in> set (tasks (state_of (simulate_day g_zero monday_start)))"
    by simp
  have f: "status (tasks (state_of (simulate_day g_zero monday_start)) ! 0) = FAILED"
    by code_simp
  have p: "0 < normal_recovery_hours (params (state_of (simulate_day g_zero monday_start)))
      \<and> 0 < weekend_recovery_multiplier (params (state_of (simulate_day g_zero monday_start)))"
    by code_simp
  show ?thesis
    using deploy_date_and_recovery_hours [OF r m] r m f p by (simp add: monday_start_def)
qed

text \<open>
  C8 as stated fails without that proviso: with \<open>normal_recovery_hours = 0\<close> a task
  that fails deployment is \<open>FAILED\<close> with \<open>recovery_hours = 0\<close>.
\<close>

theorem positive_recovery_hours_counterexample:
  "reach zero_recovery_start (Suc 0) (state_of (simulate_day g_zero zero_recovery_start))
   \<and> tasks (state_of (simulate_day g_zero zero_recovery_start)) ! 0
        \<in> set (tasks (state_of (simulate_day g_zero zero_recovery_start)))
   \<and> status (tasks (state_of (simulate_day g_zero zero_recovery_start)) ! 0) = FAILED
   \<and> \<not> 0 < recovery_hours (tasks (state_of (simulate_day g_zero zero_recovery_start)) ! 0)"
proof -
  have r: "reach zero_recovery_start (Suc 0) (state_of (simulate_day g_zero zero_recovery_start))"
    using zero_recovery_day_returns by (rule reach_one_day)
  have v: "map status (tasks (state_of (simulate_day g_zero zero_recovery_start)))
      = [FAILED, FAILED, FAILED]"
    by code_simp
  have "length (tasks (state_of (simulate_day g_zero zero_recovery_start))) = 3"
    using arg_cong [OF v, of length] by simp
  then have m: "tasks (state_of (simulate_day g_zero zero_recovery_start)) ! 0
        \<in> set (tasks (state_of (simulate_day g_zero zero_recovery_start)))"
    by simp
  have f: "status (tasks (state_of (simulate_day g_zero zero_recovery_start)) ! 0) = FAILED"
    by code_simp
  have h: "recovery_hours (tasks (state_of (simulate_day g_zero zero_recovery_start)) ! 0) = 0"
    by code_simp
  show ?thesis
    using r m f h by simp
qed

section \<open>Status transitions\<close>

text \<open>
  C1. For every task of the registry (position \<open>i\<close>) and every operation of a day-step,
  the status only moves forward along \<open>IN_PROGRESS\<close>, \<open>READY_TO_DEPLOY\<close>, then \<open>DEPLOYED\<close>
  or \<open>FAILED\<close>: task generation leaves it alone and creates tasks \<open>IN_PROGRESS\<close>; task
  progression leaves it alone or moves \<open>IN_PROGRESS\<close> to \<open>READY_TO_DEPLOY\<close>; a deployment
  attempt leaves it alone or moves \<open>READY_TO_DEPLOY\<close> to \<open>DEPLOYED\<close> or \<open>FAILED\<close>; the delay
  cost leaves the registry alone. So nothing leaves \<open>DEPLOYED\<close> or \<open>FAILED\<close> and nothing
  reaches them except from \<open>READY_TO_DEPLOY\<close>. Over a whole day-step, raised or returned,
  the status is related by \<open>forward\<close> and the task keeps its position and identifier.
\<close>

theorem status_moves_forward:
  fixes g s i
  defines "a \<equiv> state_of (generate_daily_tasks g s)"
    and "b \<equiv> state_of (progress_tasks g s)"
    and "c \<equiv> snd (attempt_deployments g s)"
    and "d \<equiv> snd (calculate_daily_delay_cost s)"
    and "e \<equiv> state_of (simulate_day g s)"
  assumes "i < length (tasks s)"
  shows "(i < length (tasks a) \<and> status (tasks a ! i) = status (tasks s ! i)
          \<and> (\<forall>j. length (tasks s) \<le> j \<and> j < length (tasks a) \<longrightarrow>
                 status (tasks a ! j) = IN_PROGRESS))
       \<and> (length (tasks b) = length (tasks s)
          \<and> (status (tasks b ! i) = status (tasks s ! i)
             \<or> status (tasks s ! i) = IN_PROGRESS \<and> status (tasks b ! i) = READY_TO_DEPLOY))
       \<and> (length (tasks c) = length (tasks s)
          \<and> (status (tasks c ! i) = status (tasks s ! i)
             \<or> status (tasks s ! i) = READY_TO_DEPLOY
               \<and> (status (tasks c ! i) = DEPLOYED \<or> status (tasks c ! i) = FAILED)))
       \<and> tasks d = tasks s
       \<and> (i < length (tasks e) \<and> forward (status (tasks s ! i)) (status (tasks e ! i))
          \<and> task_id (tasks e ! i) = task_id (tasks s ! i))"
proof -
  from generate_daily_tasks_frame [of s g] obtain new where
    n: "tasks a = tasks s @ new" "\<forall>t\<in>set new. fresh t"
    unfolding a_def by blast
  have a1: "i < length (tasks a)" "status (tasks a ! i) = status (tasks s ! i)"
    using n(1) assms(6) by (simp_all add: nth_append)
  have a2: "status (tasks a ! j) = IN_PROGRESS"
    if "length (tasks s) \<le> j \<and> j < length (tasks a)" for j
  proof -
    from that n(1) have "tasks a ! j = new ! (j - length (tasks s))" "j - length (tasks s) < length new"
      by (auto simp: nth_append)
    then have "tasks a ! j \<in> set new" by simp
    with n(2) show ?thesis by (simp add: fresh_def)
  qed
  have "list_all2 progress_rel (tasks s) (tasks b)"
    using progress_tasks_frame [of s g] unfolding b_def by blast
  from list_all2_nth_rel [OF this assms(6)]
  have b1: "length (tasks b) = length (tasks s)" and pr: "progress_rel (tasks s ! i) (tasks b ! i)"
    by blast+
  from pr have b2: "status (tasks b ! i) = status (tasks s ! i)
      \<or> status (tasks s ! i) = IN_PROGRESS \<and> status (tasks b ! i) = READY_TO_DEPLOY"
    by (auto simp: progress_rel_def)
  have "list_all2 (deploy_rel (current_date s) (calculate_recovery_time s)) (tasks s) (tasks c)"
    using attempt_deployments_frame [of s g] unfolding c_def by blast
  from list_all2_nth_rel [OF this assms(6)]
  have c1: "length (tasks c) = length (tasks s)"
    and dr: "deploy_rel (current_date s) (calculate_recovery_time s) (tasks s ! i) (tasks c ! i)"
    by blast+
  from dr have c2: "status (tasks c ! i) = status (tasks s ! i)
      \<or> status (tasks s ! i) = READY_TO_DEPLOY
        \<and> (status (tasks c ! i) = DEPLOYED \<or> status (tasks c ! i) = FAILED)"
    by (auto simp: deploy_rel_def)
  have d1: "tasks d = tasks s"
    using calculate_daily_delay_cost_frame [of s] unfolding d_def by blast
  have "day_tasks s (tasks e)"
    using simulate_day_state [of s g] unfolding e_def by blast
  from day_tasks_nth [OF this assms(6)]
  have e1: "i < length (tasks e) \<and> forward (status (tasks s ! i)) (status (tasks e ! i))
          \<and> task_id (tasks e ! i) = task_id (tasks s ! i)" .
  show ?thesis
    using a1 a2 b1 b2 c1 c2 d1 e1 by blast
qed

theorem status_moves_forward_witness:
  "0 < length (tasks (one_ready monday True))
   \<and> status (tasks (one_ready monday True) ! 0) = READY_TO_DEPLOY
   \<and> status (tasks (snd (attempt_deployments g_high (one_ready monday True))) ! 0) = DEPLOYED
   \<and> forward (status (tasks (one_ready monday True) ! 0))
        (status (tasks (state_of (simulate_day g_high (one_ready monday True))) ! 0))
   \<and> tasks (snd (calculate_daily_delay_cost (one_ready monday True)))
        = tasks (one_ready monday True)"
proof -
  have h: "0 < length (tasks (one_ready monday True))"
    by (simp add: one_ready_def)
  have v: "status (tasks (one_ready monday True) ! 0) = READY_TO_DEPLOY"
    "status (tasks (snd (attempt_deployments g_high (one_ready monday True))) ! 0) = DEPLOYED"
    by code_simp+
  show ?thesis
    using status_moves_forward [OF h, of g_high] h v by simp
qed

section \<open>Delay cost\<close>

text \<open>
  C5. Take a day-step whose four sub-steps return, with \<open>c\<close> the pair of the locals
  \<open>deploy_cost\<close> and \<open>delay_cost\<close> and \<open>s'\<close> the state after the delay-cost accrual (its
  registry is the one the accrual counted). When deploys are skipped that day, the delay
  cost is the number of ready tasks times \<open>hourly_revenue\<close> times \<open>24\<close>, it is the day's
  whole cost, the running total grows by it and the delayed-task counter grows by the
  number of ready tasks. When deploys proceed, the delay cost is \<open>0\<close> and the counter is
  unchanged.
\<close>

theorem delay_cost_accrual:
  assumes "day_parts g s = Returned c s'"
  shows "(\<not> should_deploy_today s \<longrightarrow>
            fst c = 0
          \<and> snd c = real (length (ready_tasks s')) * hourly_revenue (params s) * 24
          \<and> total_cost s' = total_cost s + snd c
          \<and> delayed_tasks (metrics s') = delayed_tasks (metrics s) + int (length (ready_tasks s'))
          \<and> daily_costs (state_of (simulate_day g s)) = daily_costs s @ [snd c]
          \<and> total_cost (state_of (simulate_day g s)) = total_cost s + snd c)
       \<and> (should_deploy_today s \<longrightarrow>
            snd c = 0 \<and> delayed_tasks (metrics s') = delayed_tasks (metrics s)
          \<and> daily_costs (state_of (simulate_day g s)) = daily_costs s @ [fst c])"
proof -
  from day_parts_returned [OF assms] obtain s2 where
    c: "c = (fst (attempt_deployments g s2),
             fst (calculate_daily_delay_cost (snd (attempt_deployments g s2))))"
    and s': "s' = snd (calculate_daily_delay_cost (snd (attempt_deployments g s2)))"
    and k: "config_kept s s2" "ledger_kept s s2"
    and dc: "daily_costs s' = daily_costs s"
    by blast
  define s3 where "s3 = snd (attempt_deployments g s2)"
  have sd2: "should_deploy_today s2 = should_deploy_today s"
    using k(1) by (intro should_deploy_today_cong) (simp_all add: config_kept_def)
  have k3: "config_kept s2 s3"
    using attempt_deployments_frame [of s2 g] unfolding s3_def by blast
  have sd3: "should_deploy_today s3 = should_deploy_today s"
    using k3 sd2 should_deploy_today_cong [of s3 s2] by (simp add: config_kept_def)
  have sim: "state_of (simulate_day g s)
      = s'\<lparr>daily_costs := daily_costs s' @ [fst c + snd c], current_date := current_date s' + 1\<rparr>"
    using assms by (simp add: simulate_day_def)
  have p3: "params s3 = params s"
    using k(1) k3 by (simp add: config_kept_def)
  have m3: "delayed_tasks (metrics s3) = delayed_tasks (metrics s)"
    using attempt_deployments_frame [of s2 g] k(2) unfolding s3_def by (simp add: ledger_kept_def)
  have skipped: ?thesis if no: "\<not> should_deploy_today s"
  proof -
    have s32: "s3 = s2" "fst c = 0"
      using no sd2 c by (simp_all add: s3_def attempt_deployments_skipped)
    have t3: "total_cost s3 = total_cost s"
      using s32 k(2) by (simp add: ledger_kept_def)
    have val: "calculate_daily_delay_cost s3 =
        (real (length (ready_tasks s3)) * hourly_revenue (params s3) * 24,
         s3\<lparr>total_cost := total_cost s3 + real (length (ready_tasks s3)) * hourly_revenue (params s3) * 24,
            metrics := (metrics s3)\<lparr>delayed_tasks := delayed_tasks (metrics s3)
                  + int (length (ready_tasks s3))\<rparr>\<rparr>)"
      using no sd3 by (simp add: calculate_daily_delay_cost_value)
    have rt: "ready_tasks s' = ready_tasks s3"
      using val s' by (simp add: s3_def ready_tasks_def)
    have sc: "snd c = real (length (ready_tasks s')) * hourly_revenue (params s) * 24"
      using c val rt p3 by (simp add: s3_def)
    have tc: "total_cost s' = total_cost s + snd c"
      using val s' t3 sc rt p3 by (simp add: s3_def)
    have dl: "delayed_tasks (metrics s') = delayed_tasks (metrics s) + int (length (ready_tasks s'))"
      using val s' m3 rt by (simp add: s3_def)
    show ?thesis
      using no s32(2) sc tc dl sim dc by simp
  qed
  have proceeds: ?thesis if yes: "should_deploy_today s"
  proof -
    have val: "calculate_daily_delay_cost s3 = (0, s3)"
      using yes sd3 by (simp add: calculate_daily_delay_cost_value)
    have "snd c = 0" "s' = s3"
      using c s' val by (simp_all add: s3_def)
    then show ?thesis
      using yes m3 sim dc by simp
  qed
  show ?thesis
    using skipped proceeds by blast
qed

theorem delay_cost_accrual_witness:
  "day_parts g_zero friday_start = Returned (0, 72000) (state_of (day_parts g_zero friday_start))
   \<and> \<not> should_deploy_today friday_start
   \<and> length (ready_tasks (state_of (day_parts g_zero friday_start))) = 3
   \<and> total_cost (state_of (day_parts g_zero friday_start)) = 72000
   \<and> delayed_tasks (metrics (state_of (day_parts g_zero friday_start))) = 3
   \<and> daily_costs (state_of (simulate_day g_zero friday_start)) = [72000]
   \<and> day_parts g_tenth monday_start = Returned (0, 0) (state_of (day_parts g_tenth monday_start))
   \<and> should_deploy_today monday_start
   \<and> delayed_tasks (metrics (state_of (day_parts g_tenth monday_start))) = 0"
proof -
  have f: "\<not> should_deploy_today friday_start" "should_deploy_today monday_start"
    "length (ready_tasks (state_of (day_parts g_zero friday_start))) = 3"
    "total_cost friday_start = 0" "delayed_tasks (metrics friday_start) = 0"
    "daily_costs friday_start = []" "delayed_tasks (metrics monday_start) = 0"
    by code_simp+
  show ?thesis
    using delay_cost_accrual [OF friday_parts] delay_cost_accrual [OF monday_parts]
      friday_parts monday_parts f
    by simp
qed

section \<open>The failure-cost multiplier\<close>



section \<open>Determinism\<close>

text \<open>
  C3, as the source has it. The constructor reads the clock: the start date is an input
  of the run beside the flag, the parameters, the multiplier and the draws. Two objects
  built with the same flag, parameters and multiplier on the same date, and fed random
  sources that deliver the same draws from the generator's position on, give the same
  outcome of \<open>run_simulation\<close>: the same result record and final state, or the same
  exception.
\<close>

theorem run_determined_by_draws_and_start_date:
  assumes "agree g g' pos"
  shows "run_simulation g' days (init today pos allow ps m)
       = run_simulation g days (init today pos allow ps m)"
proof -
  have "agree g g' (rng_pos (init today pos allow ps m))"
    using assms by (simp add: init_def)
  then show ?thesis
    by (simp add: run_simulation_def run_days_agree)
qed

theorem run_determined_by_draws_and_start_date_witness:
  "agree g_zero g_late 5
   \<and> draw_float g_late 0 \<noteq> draw_float g_zero 0
   \<and> run_simulation g_late 2 (init thursday 5 False None 1)
       = run_simulation g_zero 2 (init thursday 5 False None 1)"
  using run_determined_by_draws_and_start_date [OF g_late_agrees, of 2 thursday False None 1]
    g_late_agrees
  by (simp add: g_zero_def g_late_def)

text \<open>
  C3 as stated fails: the same flag, parameters, multiplier and draws give different
  results for an object constructed on a Monday and one constructed on a Saturday, since
  the recovery time (and the Friday policy) depend on the weekday.
\<close>

theorem start_date_counterexample:
  "value_of (run_simulation g_zero 1 (init monday 0 False None 1))
     = Some \<lparr> res_total_cost = 14250, res_daily_costs = [14250],
              res_metrics = \<lparr> failed_deploys = 3, successful_deploys = 0, delayed_tasks = 0,
                              total_recovery_hours = 6 \<rparr>,
              res_allow_friday_deploys = False \<rparr>
   \<and> value_of (run_simulation g_zero 1 (init saturday 0 False None 1))
     = Some \<lparr> res_total_cost = 42750, res_daily_costs = [42750],
              res_metrics = \<lparr> failed_deploys = 3, successful_deploys = 0, delayed_tasks = 0,
                              total_recovery_hours = 18 \<rparr>,
              res_allow_friday_deploys = False \<rparr>"
  by code_simp

section \<open>Caller-contract violations\<close>




end
